theory Spec2Isabelle
  imports Complex_Main "HOL-Library.Multiset"
begin

section \<open>Data model (types.ts)\<close>

datatype PieceType = Pawn | Rook | Knight | Bishop | Queen | King

datatype PieceColor = White | Black

text \<open>A square is a JavaScript string; the model keeps it a string.\<close>

type_synonym Square = string

record ChessPiece =
  ptype :: PieceType
  color :: PieceColor

datatype CastlingSide = Kingside | Queenside

text \<open>
  The optional fields of a move (\<open>captured\<close>, \<open>promotion\<close>, \<open>castling\<close>) are options;
  \<open>null\<close> and \<open>undefined\<close> are both \<open>None\<close>, since the code only tests them for
  truthiness. An absent \<open>enPassant\<close> is \<open>False\<close>.
\<close>

record Move =
  fromSq :: Square
  toSq :: Square
  piece :: ChessPiece
  captured :: "ChessPiece option"
  promotion :: "PieceType option"
  castling :: "CastlingSide option"
  enPassant :: bool

record CastlingRights =
  whiteKingside :: bool
  whiteQueenside :: bool
  blackKingside :: bool
  blackQueenside :: bool

text \<open>
  The board is an array of arrays of any shape, as its type \<open>(ChessPiece | null)[][]\<close>
  allows; an empty cell and a hole of the array are both \<open>None\<close>.
\<close>

type_synonym Board = "ChessPiece option list list"

record GameState =
  board :: Board
  currentPlayer :: PieceColor
  moveHistory :: "Move list"
  castlingRights :: CastlingRights
  enPassantTarget :: "Square option"
  halfMoveClock :: int
  fullMoveNumber :: int
  isCheck :: bool
  isCheckmate :: bool
  isStalemate :: bool
  isGameOver :: bool

record Position =
  row :: int
  col :: int

text \<open>
  What JavaScript throws: \<open>TypeError\<close> for a property read or written on
  \<open>undefined\<close>, \<open>RangeError\<close> for an exhausted call stack. \<open>NullAssertion\<close> marks a
  failed non-null assertion \<open>board[row][col]!\<close>: there the source goes on with a move
  whose \<open>piece\<close> is \<open>null\<close>, a value outside the type \<open>Move\<close>.
\<close>

datatype error = TypeError | RangeError | NullAssertion

fun ebind :: "error + 'a \<Rightarrow> ('a \<Rightarrow> error + 'b) \<Rightarrow> error + 'b" where
  "ebind (Inl e) f = Inl e"
| "ebind (Inr x) f = f x"

text \<open>
  A loop that pushes moves for each element of a list, in order; an exception in one
  iteration ends the loop.
\<close>

fun collect :: "('a \<Rightarrow> error + 'b list) \<Rightarrow> 'a list \<Rightarrow> error + 'b list" where
  "collect f [] = Inr []"
| "collect f (x # xs) =
     (case f x of Inl e \<Rightarrow> Inl e
      | Inr ys \<Rightarrow> (case collect f xs of Inl e \<Rightarrow> Inl e | Inr zs \<Rightarrow> Inr (ys @ zs)))"

section \<open>Squares and positions (utils/chess)\<close>

text \<open>
  \<open>parseInt(s, 10)\<close> on a string of one character: the digit's value, or \<open>NaN\<close>
  (\<open>None\<close>) for any other character.
\<close>

definition parseDigit :: "char \<Rightarrow> int option" where
  "parseDigit ch =
     (let n = (of_char ch :: nat) in if 48 \<le> n \<and> n \<le> 57 then Some (int n - 48) else None)"

text \<open>
  \<open>squareToPosition\<close>: column \<open>square.charCodeAt(0) - 97\<close>, row
  \<open>8 - parseInt(square.charAt(1), 10)\<close>. The source returns \<open>NaN\<close> for the row when the
  string has no second character or that character is no decimal digit (and for the
  column only when the string is empty, where the row is \<open>NaN\<close> too); \<open>None\<close> stands for a
  position with a \<open>NaN\<close> row. Characters after the second are ignored.
\<close>

definition squareToPosition :: "Square \<Rightarrow> Position option" where
  "squareToPosition square =
     (case square of
        f # r # _ \<Rightarrow>
          (case parseDigit r of
             None \<Rightarrow> None
           | Some d \<Rightarrow> Some \<lparr>row = 8 - d, col = int (of_char f) - 97\<rparr>)
      | _ \<Rightarrow> None)"

text \<open>The decimal digits of a number, as the template literal prints them.\<close>

fun showNat :: "nat \<Rightarrow> string" where
  "showNat n =
     (if n < 10 then [char_of (48 + n)] else showNat (n div 10) @ [char_of (48 + n mod 10)])"

declare showNat.simps [simp del]

definition showInt :: "int \<Rightarrow> string" where
  "showInt i = (if i < 0 then CHR ''-'' # showNat (nat (- i)) else showNat (nat i))"

text \<open>
  \<open>positionToSquare\<close>: \<open>String.fromCharCode(97 + col)\<close> followed by \<open>8 - row\<close>. The
  string type has the code units 0 to 255, so the model agrees with the source where
  \<open>0 \<le> 97 + col < 256\<close>; all calls in the code are in that range.
\<close>

definition positionToSquare :: "Position \<Rightarrow> Square" where
  "positionToSquare position = char_of (97 + col position) # showInt (8 - row position)"

section \<open>Board access\<close>

text \<open>
  \<open>board[r][c]\<close>: a \<open>TypeError\<close> when \<open>board[r]\<close> is \<open>undefined\<close>, \<open>undefined\<close> when the
  row exists and the column does not.
\<close>

definition rowCell :: "ChessPiece option list \<Rightarrow> int \<Rightarrow> ChessPiece option" where
  "rowCell r c = (if 0 \<le> c \<and> nat c < length r then r ! nat c else None)"

definition cellAt :: "Board \<Rightarrow> int \<Rightarrow> int \<Rightarrow> error + ChessPiece option" where
  "cellAt b r c = (if 0 \<le> r \<and> nat r < length b then Inr (rowCell (b ! nat r) c) else Inl TypeError)"

text \<open>\<open>board[r]?.[c]\<close>: \<open>undefined\<close> when the row does not exist.\<close>

definition cellOpt :: "Board \<Rightarrow> int \<Rightarrow> int \<Rightarrow> ChessPiece option" where
  "cellOpt b r c = (if 0 \<le> r \<and> nat r < length b then rowCell (b ! nat r) c else None)"

text \<open>
  \<open>row[c] = v\<close> on a JavaScript array: past the end the array grows, with holes between.
  At a negative index the assignment sets a property that is no element of the array;
  no code of the repository reads a board at a negative column and the copy
  \<open>[...r]\<close> of \<open>applyMove\<close> drops it, so the model leaves the row unchanged.
\<close>

definition writeAt :: "ChessPiece option list \<Rightarrow> int \<Rightarrow> ChessPiece option \<Rightarrow> ChessPiece option list" where
  "writeAt r c v =
     (if c < 0 then r
      else if nat c < length r then r[nat c := v]
      else r @ replicate (nat c - length r) None @ [v])"

definition setCell :: "Board \<Rightarrow> int \<Rightarrow> int \<Rightarrow> ChessPiece option \<Rightarrow> error + Board" where
  "setCell b r c v =
     (if 0 \<le> r \<and> nat r < length b then Inr (b[nat r := writeAt (b ! nat r) c v])
      else Inl TypeError)"

section \<open>Initial position\<close>

definition backRank :: "PieceType list" where
  "backRank = [Rook, Knight, Bishop, Queen, King, Bishop, Knight, Rook]"

text \<open>\<open>placePiece\<close> of \<open>createInitialBoard\<close>: \<open>board[row][col] = piece\<close> at the square.\<close>

definition placePiece :: "Board \<Rightarrow> Square \<Rightarrow> ChessPiece \<Rightarrow> error + Board" where
  "placePiece b pos pc =
     (case squareToPosition pos of
        None \<Rightarrow> Inl TypeError
      | Some p \<Rightarrow> setCell b (row p) (col p) (Some pc))"

text \<open>The body of the loop of \<open>createInitialBoard\<close> for the file \<open>i\<close>.\<close>

definition placeFile :: "Board \<Rightarrow> nat \<Rightarrow> error + Board" where
  "placeFile b i =
     (let file = char_of (97 + i) in
      ebind (placePiece b [file, CHR ''1''] \<lparr>ptype = backRank ! i, color = White\<rparr>) (\<lambda>b1.
      ebind (placePiece b1 [file, CHR ''2''] \<lparr>ptype = Pawn, color = White\<rparr>) (\<lambda>b2.
      ebind (placePiece b2 [file, CHR ''7''] \<lparr>ptype = Pawn, color = Black\<rparr>) (\<lambda>b3.
        placePiece b3 [file, CHR ''8''] \<lparr>ptype = backRank ! i, color = Black\<rparr>))))"

fun placeFiles :: "Board \<Rightarrow> nat list \<Rightarrow> error + Board" where
  "placeFiles b [] = Inr b"
| "placeFiles b (i # is) =
     (case placeFile b i of Inl e \<Rightarrow> Inl e | Inr b' \<Rightarrow> placeFiles b' is)"

text \<open>
  \<open>createInitialBoard\<close>: an 8 by 8 array of \<open>null\<close>, filled file by file for \<open>i\<close> from 0
  to 7.
\<close>

definition createInitialBoard :: "error + Board" where
  "createInitialBoard = placeFiles (replicate 8 (replicate 8 None)) [0, 1, 2, 3, 4, 5, 6, 7]"

text \<open>
  The board that \<open>createInitialBoard\<close> returns (lemma \<open>createInitialBoard_value\<close>):
  rank 8 is row 0.
\<close>

definition initialBoard :: Board where
  "initialBoard =
     [map (\<lambda>t. Some \<lparr>ptype = t, color = Black\<rparr>) backRank,
      replicate 8 (Some \<lparr>ptype = Pawn, color = Black\<rparr>),
      replicate 8 None, replicate 8 None, replicate 8 None, replicate 8 None,
      replicate 8 (Some \<lparr>ptype = Pawn, color = White\<rparr>),
      map (\<lambda>t. Some \<lparr>ptype = t, color = White\<rparr>) backRank]"

definition createInitialGameState :: GameState where
  "createInitialGameState =
     \<lparr>board = initialBoard,
      currentPlayer = White,
      moveHistory = [],
      castlingRights = \<lparr>whiteKingside = True, whiteQueenside = True,
                        blackKingside = True, blackQueenside = True\<rparr>,
      enPassantTarget = None,
      halfMoveClock = 0,
      fullMoveNumber = 1,
      isCheck = False,
      isCheckmate = False,
      isStalemate = False,
      isGameOver = False\<rparr>"

section \<open>Pseudo-legal move generation\<close>

definition opponentOf :: "PieceColor \<Rightarrow> PieceColor" where
  "opponentOf c = (if c = White then Black else White)"

text \<open>The object literal \<open>{ from, to, piece }\<close>, every optional field absent.\<close>

definition mkMove :: "Square \<Rightarrow> Square \<Rightarrow> ChessPiece \<Rightarrow> Move" where
  "mkMove f t pc =
     \<lparr>fromSq = f, toSq = t, piece = pc, captured = None, promotion = None,
      castling = None, enPassant = False\<rparr>"

text \<open>
  The first two lines of every generator:
  \<open>const { row, col } = squareToPosition(from); const piece = board[row][col]!\<close>.
\<close>

definition pieceOn :: "Board \<Rightarrow> Square \<Rightarrow> error + (int \<times> int \<times> ChessPiece)" where
  "pieceOn b sq =
     (case squareToPosition sq of
        None \<Rightarrow> Inl TypeError
      | Some p \<Rightarrow>
          ebind (cellAt b (row p) (col p))
            (\<lambda>x. case x of None \<Rightarrow> Inl NullAssertion | Some pc \<Rightarrow> Inr (row p, col p, pc)))"

definition promotionAt :: "int \<Rightarrow> PieceType option" where
  "promotionAt r = (if r = 0 \<or> r = 7 then Some Queen else None)"

text \<open>Steps 1 and 2 of \<open>getPawnMoves\<close>: the forward move and the double move.\<close>

definition pawnForward ::
  "Board \<Rightarrow> Square \<Rightarrow> ChessPiece \<Rightarrow> int \<Rightarrow> int \<Rightarrow> int \<Rightarrow> int \<Rightarrow> error + Move list" where
  "pawnForward b from pc r c direction startRow =
     (if r + direction \<ge> 0 \<and> r + direction < 8 then
        ebind (cellAt b (r + direction) c) (\<lambda>t.
          if t \<noteq> None then Inr []
          else
            let m1 = (mkMove from (positionToSquare \<lparr>row = r + direction, col = c\<rparr>) pc)
                       \<lparr>promotion := promotionAt (r + direction)\<rparr>
            in if r = startRow then
                 ebind (cellAt b (r + 2 * direction) c) (\<lambda>t2.
                   if t2 = None
                   then Inr [m1, mkMove from (positionToSquare \<lparr>row = r + 2 * direction, col = c\<rparr>) pc]
                   else Inr [m1])
               else Inr [m1])
      else Inr [])"

text \<open>
  Step 3 of \<open>getPawnMoves\<close> for one \<open>dCol\<close>: the normal capture, then the en-passant
  capture. An empty string as \<open>enPassantTarget\<close> is falsy; \<open>squareToPosition\<close> gives
  \<open>None\<close> for it as well.
\<close>

definition pawnCapture ::
  "Board \<Rightarrow> Square \<Rightarrow> ChessPiece \<Rightarrow> int \<Rightarrow> int \<Rightarrow> int \<Rightarrow> PieceColor \<Rightarrow> Square option \<Rightarrow> int
     \<Rightarrow> Move list" where
  "pawnCapture b from pc r c direction opponentColor ep dCol =
     (if c + dCol \<ge> 0 \<and> c + dCol < 8 then
        let targetRow = r + direction;
            targetCol = c + dCol;
            targetPiece = cellOpt b targetRow targetCol;
            normal =
              (case targetPiece of
                 Some t \<Rightarrow>
                   if color t = opponentColor
                   then [(mkMove from (positionToSquare \<lparr>row = targetRow, col = targetCol\<rparr>) pc)
                           \<lparr>captured := Some t, promotion := promotionAt targetRow\<rparr>]
                   else []
               | None \<Rightarrow> []);
            enPassantPos = (case ep of None \<Rightarrow> None | Some s \<Rightarrow> squareToPosition s);
            passant =
              (case enPassantPos of
                 Some p \<Rightarrow>
                   if row p = targetRow \<and> col p = targetCol
                   then [(mkMove from (positionToSquare \<lparr>row = targetRow, col = targetCol\<rparr>) pc)
                           \<lparr>captured := cellOpt b r targetCol, enPassant := True\<rparr>]
                   else []
               | None \<Rightarrow> [])
        in normal @ passant
      else [])"

definition getPawnMoves :: "Board \<Rightarrow> Square \<Rightarrow> PieceColor \<Rightarrow> Square option \<Rightarrow> error + Move list" where
  "getPawnMoves b from c ep =
     ebind (pieceOn b from) (\<lambda>(r, cl, pc).
       let direction = (if c = White then - 1 else 1);
           startRow = (if c = White then 6 else 1);
           opponentColor = opponentOf c
       in ebind (pawnForward b from pc r cl direction startRow) (\<lambda>fwd.
            Inr (fwd @ concat (map (pawnCapture b from pc r cl direction opponentColor ep) [- 1, 1]))))"

text \<open>
  The inner loop of \<open>getSlidingMoves\<close>, \<open>i\<close> running through the given list: it breaks
  at the edge of the board and at the first occupied square.
\<close>

fun slideRay ::
  "Board \<Rightarrow> Square \<Rightarrow> PieceColor \<Rightarrow> ChessPiece \<Rightarrow> int \<Rightarrow> int \<Rightarrow> int \<times> int \<Rightarrow> int list
     \<Rightarrow> error + Move list" where
  "slideRay b from c pc r cl d [] = Inr []"
| "slideRay b from c pc r cl d (i # is) =
     (let newRow = r + i * fst d; newCol = cl + i * snd d in
      if newRow < 0 \<or> newRow \<ge> 8 \<or> newCol < 0 \<or> newCol \<ge> 8 then Inr []
      else
        (case cellAt b newRow newCol of
           Inl e \<Rightarrow> Inl e
         | Inr (Some t) \<Rightarrow>
             Inr (if color t \<noteq> c
                  then [(mkMove from (positionToSquare \<lparr>row = newRow, col = newCol\<rparr>) pc)
                          \<lparr>captured := Some t\<rparr>]
                  else [])
         | Inr None \<Rightarrow>
             (case slideRay b from c pc r cl d is of
                Inl e \<Rightarrow> Inl e
              | Inr rest \<Rightarrow>
                  Inr (mkMove from (positionToSquare \<lparr>row = newRow, col = newCol\<rparr>) pc # rest))))"

definition getSlidingMoves ::
  "Board \<Rightarrow> Square \<Rightarrow> PieceColor \<Rightarrow> (int \<times> int) list \<Rightarrow> error + Move list" where
  "getSlidingMoves b from c directions =
     ebind (pieceOn b from) (\<lambda>(r, cl, pc).
       collect (\<lambda>d. slideRay b from c pc r cl d [1, 2, 3, 4, 5, 6, 7]) directions)"

text \<open>
  One iteration of the loop over offsets that \<open>getKnightMoves\<close> and \<open>getKingMoves\<close>
  share: a move when the target is on the board and holds no piece of the same colour.
\<close>

definition stepMove ::
  "Board \<Rightarrow> Square \<Rightarrow> PieceColor \<Rightarrow> ChessPiece \<Rightarrow> int \<Rightarrow> int \<Rightarrow> int \<times> int \<Rightarrow> error + Move list" where
  "stepMove b from c pc r cl d =
     (let newRow = r + fst d; newCol = cl + snd d in
      if newRow \<ge> 0 \<and> newRow < 8 \<and> newCol \<ge> 0 \<and> newCol < 8 then
        ebind (cellAt b newRow newCol) (\<lambda>targetPiece.
          if targetPiece = None \<or> map_option color targetPiece \<noteq> Some c
          then Inr [(mkMove from (positionToSquare \<lparr>row = newRow, col = newCol\<rparr>) pc)
                      \<lparr>captured := targetPiece\<rparr>]
          else Inr [])
      else Inr [])"

definition knightDeltas :: "(int \<times> int) list" where
  "knightDeltas = [(2, 1), (2, - 1), (- 2, 1), (- 2, - 1), (1, 2), (1, - 2), (- 1, 2), (- 1, - 2)]"

definition getKnightMoves :: "Board \<Rightarrow> Square \<Rightarrow> PieceColor \<Rightarrow> error + Move list" where
  "getKnightMoves b from c =
     ebind (pieceOn b from) (\<lambda>(r, cl, pc). collect (stepMove b from c pc r cl) knightDeltas)"

text \<open>
  The pairs \<open>(dr, dc)\<close> of the two loops of \<open>getKingMoves\<close> from -1 to 1, in loop order,
  without \<open>(0, 0)\<close>.
\<close>

definition kingDeltas :: "(int \<times> int) list" where
  "kingDeltas = [(- 1, - 1), (- 1, 0), (- 1, 1), (0, - 1), (0, 1), (1, - 1), (1, 0), (1, 1)]"

text \<open>\<open>!board[r][c1] && !board[r][c2] && ...\<close>, left to right.\<close>

fun allEmpty :: "Board \<Rightarrow> int \<Rightarrow> int list \<Rightarrow> error + bool" where
  "allEmpty b r [] = Inr True"
| "allEmpty b r (c # cs) =
     (case cellAt b r c of
        Inl e \<Rightarrow> Inl e
      | Inr x \<Rightarrow> if x \<noteq> None then Inr False else allEmpty b r cs)"

text \<open>
  \<open>!isSquareAttacked(board, s1, opp) && !isSquareAttacked(board, s2, opp)\<close>, left to
  right; the attack test is the argument \<open>attacked\<close>.
\<close>

fun noneAttacked ::
  "(Board \<Rightarrow> Square \<Rightarrow> PieceColor \<Rightarrow> error + bool) \<Rightarrow> Board \<Rightarrow> PieceColor \<Rightarrow> Square list
     \<Rightarrow> error + bool" where
  "noneAttacked attacked b opp [] = Inr True"
| "noneAttacked attacked b opp (s # ss) =
     (case attacked b s opp of
        Inl e \<Rightarrow> Inl e
      | Inr a \<Rightarrow> if a then Inr False else noneAttacked attacked b opp ss)"

text \<open>
  One of the four castling conditions of \<open>getKingMoves\<close>: the right, the empty squares
  of the back row, the two squares that must not be attacked, then the move.
\<close>

definition castleWing ::
  "(Board \<Rightarrow> Square \<Rightarrow> PieceColor \<Rightarrow> error + bool) \<Rightarrow> Board \<Rightarrow> Square \<Rightarrow> ChessPiece
     \<Rightarrow> PieceColor \<Rightarrow> bool \<Rightarrow> int \<Rightarrow> int list \<Rightarrow> Square list \<Rightarrow> Square \<Rightarrow> CastlingSide
     \<Rightarrow> error + Move list" where
  "castleWing attacked b from pc opp right r cols sqs dest side =
     (if \<not> right then Inr []
      else ebind (allEmpty b r cols) (\<lambda>e.
        if \<not> e then Inr []
        else ebind (noneAttacked attacked b opp sqs) (\<lambda>n.
          Inr (if n then [(mkMove from dest pc)\<lparr>castling := Some side\<rparr>] else []))))"

definition castleMoves ::
  "(Board \<Rightarrow> Square \<Rightarrow> PieceColor \<Rightarrow> error + bool) \<Rightarrow> Board \<Rightarrow> Square \<Rightarrow> PieceColor
     \<Rightarrow> ChessPiece \<Rightarrow> CastlingRights \<Rightarrow> error + Move list" where
  "castleMoves attacked b from c pc cr =
     (let opponentColor = opponentOf c in
      ebind (attacked b from opponentColor) (\<lambda>a.
        if a then Inr []
        else if c = White then
          ebind (castleWing attacked b from pc opponentColor (whiteKingside cr) 7 [5, 6]
                   [''f1'', ''g1''] ''g1'' Kingside) (\<lambda>ks.
          ebind (castleWing attacked b from pc opponentColor (whiteQueenside cr) 7 [1, 2, 3]
                   [''d1'', ''c1''] ''c1'' Queenside) (\<lambda>qs. Inr (ks @ qs)))
        else
          ebind (castleWing attacked b from pc opponentColor (blackKingside cr) 0 [5, 6]
                   [''f8'', ''g8''] ''g8'' Kingside) (\<lambda>ks.
          ebind (castleWing attacked b from pc opponentColor (blackQueenside cr) 0 [1, 2, 3]
                   [''d8'', ''c8''] ''c8'' Queenside) (\<lambda>qs. Inr (ks @ qs)))))"

text \<open>
  In the source \<open>getKingMoves\<close> calls \<open>isSquareAttacked\<close>, which calls \<open>getPieceMoves\<close>
  with \<open>ignoreKingCheck = true\<close>, which never reaches the castling part again. The
  model cuts the cycle at the same place: the generators take the attack test as the
  argument \<open>attacked\<close>, \<open>isSquareAttacked\<close> passes a test that is never called, and
  \<open>getPieceMoves\<close> passes \<open>isSquareAttacked\<close>.
\<close>

definition getKingMovesWith ::
  "(Board \<Rightarrow> Square \<Rightarrow> PieceColor \<Rightarrow> error + bool) \<Rightarrow> Board \<Rightarrow> Square \<Rightarrow> PieceColor
     \<Rightarrow> CastlingRights \<Rightarrow> bool \<Rightarrow> error + Move list" where
  "getKingMovesWith attacked b from c cr ignoreKingCheck =
     ebind (pieceOn b from) (\<lambda>(r, cl, pc).
       ebind (collect (stepMove b from c pc r cl) kingDeltas) (\<lambda>adj.
         if \<not> ignoreKingCheck
         then ebind (castleMoves attacked b from c pc cr) (\<lambda>cs. Inr (adj @ cs))
         else Inr adj))"

definition getPieceMovesWith ::
  "(Board \<Rightarrow> Square \<Rightarrow> PieceColor \<Rightarrow> error + bool) \<Rightarrow> Board \<Rightarrow> Square \<Rightarrow> ChessPiece
     \<Rightarrow> CastlingRights \<Rightarrow> Square option \<Rightarrow> bool \<Rightarrow> error + Move list" where
  "getPieceMovesWith attacked b square pc cr ep ignoreKingCheck =
     (case ptype pc of
        Pawn \<Rightarrow> getPawnMoves b square (color pc) ep
      | Rook \<Rightarrow> getSlidingMoves b square (color pc) [(0, 1), (0, - 1), (1, 0), (- 1, 0)]
      | Knight \<Rightarrow> getKnightMoves b square (color pc)
      | Bishop \<Rightarrow> getSlidingMoves b square (color pc) [(1, 1), (1, - 1), (- 1, 1), (- 1, - 1)]
      | Queen \<Rightarrow>
          getSlidingMoves b square (color pc)
            [(0, 1), (0, - 1), (1, 0), (- 1, 0), (1, 1), (1, - 1), (- 1, 1), (- 1, - 1)]
      | King \<Rightarrow> getKingMovesWith attacked b square (color pc) cr ignoreKingCheck)"

text \<open>The cells \<open>(r, c)\<close> of the two loops from 0 to 7, row by row.\<close>

definition cells64 :: "(int \<times> int) list" where
  "cells64 = List.product [0, 1, 2, 3, 4, 5, 6, 7] [0, 1, 2, 3, 4, 5, 6, 7]"

definition noRights :: CastlingRights where
  "noRights = \<lparr>whiteKingside = False, whiteQueenside = False,
               blackKingside = False, blackQueenside = False\<rparr>"

text \<open>The loops of \<open>isSquareAttacked\<close> over the remaining cells; \<open>True\<close> returns early.\<close>

fun scanAttack :: "Board \<Rightarrow> Square \<Rightarrow> PieceColor \<Rightarrow> (int \<times> int) list \<Rightarrow> error + bool" where
  "scanAttack b square byColor [] = Inr False"
| "scanAttack b square byColor (rc # rest) =
     (case cellAt b (fst rc) (snd rc) of
        Inl e \<Rightarrow> Inl e
      | Inr None \<Rightarrow> scanAttack b square byColor rest
      | Inr (Some pc) \<Rightarrow>
          if color pc = byColor then
            (case getPieceMovesWith (\<lambda>_ _ _. Inr False) b
                    (positionToSquare \<lparr>row = fst rc, col = snd rc\<rparr>) pc noRights None True of
               Inl e \<Rightarrow> Inl e
             | Inr moves \<Rightarrow>
                 if \<exists>m \<in> set moves. toSq m = square then Inr True
                 else scanAttack b square byColor rest)
          else scanAttack b square byColor rest)"

definition isSquareAttacked :: "Board \<Rightarrow> Square \<Rightarrow> PieceColor \<Rightarrow> error + bool" where
  "isSquareAttacked b square byColor = scanAttack b square byColor cells64"

definition getPieceMoves ::
  "Board \<Rightarrow> Square \<Rightarrow> ChessPiece \<Rightarrow> CastlingRights \<Rightarrow> Square option \<Rightarrow> bool \<Rightarrow> error + Move list" where
  "getPieceMoves = getPieceMovesWith isSquareAttacked"

text \<open>The loops of \<open>findKing\<close> over the remaining cells.\<close>

fun scanKing :: "Board \<Rightarrow> PieceColor \<Rightarrow> (int \<times> int) list \<Rightarrow> error + Square option" where
  "scanKing b c [] = Inr None"
| "scanKing b c (rc # rest) =
     (case cellAt b (fst rc) (snd rc) of
        Inl e \<Rightarrow> Inl e
      | Inr None \<Rightarrow> scanKing b c rest
      | Inr (Some pc) \<Rightarrow>
          if ptype pc = King \<and> color pc = c
          then Inr (Some (positionToSquare \<lparr>row = fst rc, col = snd rc\<rparr>))
          else scanKing b c rest)"

definition findKing :: "Board \<Rightarrow> PieceColor \<Rightarrow> error + Square option" where
  "findKing b c = scanKing b c cells64"

section \<open>Move application\<close>

text \<open>
  The castling branch of \<open>applyMove\<close>: the rook of column \<open>src\<close> in the king's target
  row goes to column \<open>dst\<close>.
\<close>

definition moveRook :: "Board \<Rightarrow> int \<Rightarrow> int \<Rightarrow> int \<Rightarrow> error + Board" where
  "moveRook b r src dst =
     (let rook = cellOpt b r src in
      ebind (setCell b r src None) (\<lambda>b1. setCell b1 r dst rook))"

text \<open>
  The board of \<open>applyMove\<close>: the copy \<open>newBoard\<close> after the two writes of the move,
  the en-passant removal and the castling rook.
\<close>

definition movePieces :: "Board \<Rightarrow> Move \<Rightarrow> Position \<Rightarrow> Position \<Rightarrow> error + Board" where
  "movePieces b move fromPos toPos =
     ebind (setCell b (row fromPos) (col fromPos) None) (\<lambda>b1.
     ebind (setCell b1 (row toPos) (col toPos)
              (Some (case promotion move of
                       Some t \<Rightarrow> (piece move)\<lparr>ptype := t\<rparr>
                     | None \<Rightarrow> piece move))) (\<lambda>b2.
     ebind (if enPassant move then setCell b2 (row fromPos) (col toPos) None else Inr b2) (\<lambda>b3.
       case castling move of
         None \<Rightarrow> Inr b3
       | Some Kingside \<Rightarrow> moveRook b3 (row toPos) 7 5
       | Some Queenside \<Rightarrow> moveRook b3 (row toPos) 0 3)))"

text \<open>The castling rights of \<open>applyMove\<close>: a copy of the old ones, then the five updates.\<close>

definition newCastlingRights :: "CastlingRights \<Rightarrow> Move \<Rightarrow> CastlingRights" where
  "newCastlingRights cr0 move =
     (let cr1 =
            (if ptype (piece move) = King then
               (if color (piece move) = White
                then cr0\<lparr>whiteKingside := False, whiteQueenside := False\<rparr>
                else cr0\<lparr>blackKingside := False, blackQueenside := False\<rparr>)
             else cr0);
          cr2 = (if fromSq move = ''a1'' \<or> toSq move = ''a1''
                 then cr1\<lparr>whiteQueenside := False\<rparr> else cr1);
          cr3 = (if fromSq move = ''h1'' \<or> toSq move = ''h1''
                 then cr2\<lparr>whiteKingside := False\<rparr> else cr2);
          cr4 = (if fromSq move = ''a8'' \<or> toSq move = ''a8''
                 then cr3\<lparr>blackQueenside := False\<rparr> else cr3)
      in if fromSq move = ''h8'' \<or> toSq move = ''h8''
         then cr4\<lparr>blackKingside := False\<rparr> else cr4)"

text \<open>
  The en-passant target of \<open>applyMove\<close>. The two rows differ by 2, so
  \<open>(fromPos.row + toPos.row) / 2\<close> is an integer.
\<close>

definition newEnPassantTarget :: "Move \<Rightarrow> Position \<Rightarrow> Position \<Rightarrow> Square option" where
  "newEnPassantTarget move fromPos toPos =
     (if ptype (piece move) = Pawn \<and> \<bar>row fromPos - row toPos\<bar> = 2
      then Some (positionToSquare \<lparr>row = (row fromPos + row toPos) div 2, col = col fromPos\<rparr>)
      else None)"

definition applyMove :: "GameState \<Rightarrow> Move \<Rightarrow> error + GameState" where
  "applyMove gameState move =
     (case squareToPosition (fromSq move) of
        None \<Rightarrow> Inl TypeError
      | Some fromPos \<Rightarrow>
     (case squareToPosition (toSq move) of
        None \<Rightarrow> Inl TypeError
      | Some toPos \<Rightarrow>
          ebind (movePieces (board gameState) move fromPos toPos) (\<lambda>newBoard.
            Inr (gameState
                   \<lparr>board := newBoard,
                    currentPlayer := (if currentPlayer gameState = White then Black else White),
                    moveHistory := moveHistory gameState @ [move],
                    castlingRights := newCastlingRights (castlingRights gameState) move,
                    enPassantTarget := newEnPassantTarget move fromPos toPos,
                    halfMoveClock :=
                      (if ptype (piece move) = Pawn \<or> captured move \<noteq> None then 0
                       else halfMoveClock gameState + 1),
                    fullMoveNumber :=
                      (if currentPlayer gameState = Black then fullMoveNumber gameState + 1
                       else fullMoveNumber gameState)\<rparr>))))"

section \<open>Legal moves\<close>

text \<open>
  The body of the loop over \<open>pieceMoves\<close> in \<open>getAllValidMoves\<close>: the move is kept when,
  after it, the king of \<open>color\<close> is found and its square is not attacked.
\<close>

definition keepIfSafe :: "GameState \<Rightarrow> PieceColor \<Rightarrow> Move \<Rightarrow> error + Move list" where
  "keepIfSafe state c move =
     ebind (applyMove state move) (\<lambda>tempState.
       ebind (findKing (board tempState) c) (\<lambda>kingSquare.
         case kingSquare of
           None \<Rightarrow> Inr []
         | Some k \<Rightarrow>
             ebind (isSquareAttacked (board tempState) k (opponentOf c)) (\<lambda>a.
               Inr (if a then [] else [move]))))"

text \<open>The body of the loops over \<open>r\<close> and \<open>c\<close> in \<open>getAllValidMoves\<close>.\<close>

definition validMovesFrom :: "GameState \<Rightarrow> PieceColor \<Rightarrow> int \<times> int \<Rightarrow> error + Move list" where
  "validMovesFrom state c rc =
     ebind (cellAt (board state) (fst rc) (snd rc)) (\<lambda>x.
       case x of
         None \<Rightarrow> Inr []
       | Some pc \<Rightarrow>
           if color pc = c then
             ebind (getPieceMoves (board state) (positionToSquare \<lparr>row = fst rc, col = snd rc\<rparr>)
                      pc (castlingRights state) (enPassantTarget state) False)
               (collect (keepIfSafe state c))
           else Inr [])"

definition getAllValidMoves :: "GameState \<Rightarrow> PieceColor \<Rightarrow> error + Move list" where
  "getAllValidMoves state c = collect (validMovesFrom state c) cells64"

section \<open>Terminal-state classification (hooks/useChessGame.ts)\<close>

definition checkGameStatus :: "GameState \<Rightarrow> error + GameState" where
  "checkGameStatus state =
     (let nextPlayer = currentPlayer state;
          opponentColor = (if nextPlayer = White then Black else White)
      in ebind (findKing (board state) nextPlayer) (\<lambda>kingSquare.
           case kingSquare of
             None \<Rightarrow> Inr (state\<lparr>isGameOver := True, isCheckmate := True\<rparr>)
           | Some k \<Rightarrow>
               ebind (isSquareAttacked (board state) k opponentColor) (\<lambda>inCheck.
               ebind (getAllValidMoves state nextPlayer) (\<lambda>moves.
                 let hasValidMoves = (length moves > 0);
                     checkmate = (inCheck \<and> \<not> hasValidMoves);
                     stalemate = (\<not> inCheck \<and> \<not> hasValidMoves);
                     gameOver = (checkmate \<or> stalemate)
                 in Inr (state\<lparr>isCheck := inCheck, isCheckmate := checkmate,
                                 isStalemate := stalemate, isGameOver := gameOver\<rparr>)))))"

text \<open>
  \<open>makeMove\<close>, as a function of the game state the hook holds: nothing happens once
  the game is over; otherwise the move is applied, the status is computed, and the
  result is the new state of the hook.
\<close>

definition makeMove :: "GameState \<Rightarrow> Move \<Rightarrow> error + GameState" where
  "makeMove gameState move =
     (if isGameOver gameState then Inr gameState
      else ebind (applyMove gameState move) checkGameStatus)"

text \<open>The loop \<open>historyToReplay.forEach\<close> of \<open>undoMove\<close>.\<close>

fun replay :: "GameState \<Rightarrow> Move list \<Rightarrow> error + GameState" where
  "replay tempState [] = Inr tempState"
| "replay tempState (move # rest) =
     (case applyMove tempState move of Inl e \<Rightarrow> Inl e | Inr t \<Rightarrow> replay t rest)"

text \<open>
  \<open>undoMove\<close>: with fewer than two moves nothing happens; otherwise the history
  without its last two moves (\<open>slice(0, -2)\<close>) is replayed from the initial state and
  the status is computed.
\<close>

definition undoMove :: "GameState \<Rightarrow> error + GameState" where
  "undoMove gameState =
     (if length (moveHistory gameState) < 2 then Inr gameState
      else ebind (replay createInitialGameState
                    (take (length (moveHistory gameState) - 2) (moveHistory gameState)))
             checkGameStatus)"

section \<open>Search engine (services/chessEngine)\<close>

text \<open>
  Scores are JavaScript numbers. The model has the two infinities and, for the finite
  ones, exact rationals: every table entry is a multiple of 1/2 and the sums over at
  most 64 cells stay far below \<open>2^53\<close>, so the sums of \<open>evaluatePosition\<close> are exact in
  double precision too; the rounding of the last addition, of the jitter, is not
  modelled. No operation of the engine yields \<open>NaN\<close>, and its callers pass
  \<open>-Infinity\<close> and \<open>Infinity\<close> as the window.
\<close>

datatype JSNumber = NegInfinity | Finite rat | PosInfinity

fun numLess :: "JSNumber \<Rightarrow> JSNumber \<Rightarrow> bool" where
  "numLess NegInfinity b = (b \<noteq> NegInfinity)"
| "numLess (Finite x) (Finite y) = (x < y)"
| "numLess (Finite x) PosInfinity = True"
| "numLess (Finite x) NegInfinity = False"
| "numLess PosInfinity b = False"

definition numLe :: "JSNumber \<Rightarrow> JSNumber \<Rightarrow> bool" where
  "numLe a b = (a = b \<or> numLess a b)"

definition numMax :: "JSNumber \<Rightarrow> JSNumber \<Rightarrow> JSNumber" where
  "numMax a b = (if numLess a b then b else a)"

definition numMin :: "JSNumber \<Rightarrow> JSNumber \<Rightarrow> JSNumber" where
  "numMin a b = (if numLess b a then b else a)"

fun PIECE_VALUES :: "PieceType \<Rightarrow> rat" where
  "PIECE_VALUES Pawn = 100"
| "PIECE_VALUES Knight = 320"
| "PIECE_VALUES Bishop = 330"
| "PIECE_VALUES Rook = 500"
| "PIECE_VALUES Queen = 900"
| "PIECE_VALUES King = 20000"

definition pawnTable :: "rat list list" where
  "pawnTable =
     [[0, 0, 0, 0, 0, 0, 0, 0],
      [50, 50, 50, 50, 50, 50, 50, 50],
      [10, 10, 20, 30, 30, 20, 10, 10],
      [5, 5, 10, 25, 25, 10, 5, 5],
      [0, 0, 0, 20, 20, 0, 0, 0],
      [5, - 5, - 10, 0, 0, - 10, - 5, 5],
      [5, 10, 10, - 20, - 20, 10, 10, 5],
      [0, 0, 0, 0, 0, 0, 0, 0]]"

definition knightTable :: "rat list list" where
  "knightTable =
     [[- 50, - 40, - 30, - 30, - 30, - 30, - 40, - 50],
      [- 40, - 20, 0, 0, 0, 0, - 20, - 40],
      [- 30, 0, 10, 15, 15, 10, 0, - 30],
      [- 30, 5, 15, 20, 20, 15, 5, - 30],
      [- 30, 0, 15, 20, 20, 15, 0, - 30],
      [- 30, 5, 10, 15, 15, 10, 5, - 30],
      [- 40, - 20, 0, 5, 5, 0, - 20, - 40],
      [- 50, - 40, - 30, - 30, - 30, - 30, - 40, - 50]]"

definition kingTable :: "rat list list" where
  "kingTable =
     [[- 30, - 40, - 40, - 50, - 50, - 40, - 40, - 30],
      [- 30, - 40, - 40, - 50, - 50, - 40, - 40, - 30],
      [- 30, - 40, - 40, - 50, - 50, - 40, - 40, - 30],
      [- 30, - 40, - 40, - 50, - 50, - 40, - 40, - 30],
      [- 20, - 30, - 30, - 40, - 40, - 30, - 30, - 20],
      [- 10, - 20, - 20, - 20, - 20, - 20, - 20, - 10],
      [20, 20, 0, 0, 0, 0, 20, 20],
      [20, 30, 10, 0, 0, 10, 30, 20]]"

fun pieceSquareTables :: "PieceType \<Rightarrow> rat list list" where
  "pieceSquareTables Pawn = pawnTable"
| "pieceSquareTables Knight = knightTable"
| "pieceSquareTables Bishop = map (\<lambda>r. rev (map (\<lambda>val. val + 5) r)) knightTable"
| "pieceSquareTables Rook = map (\<lambda>r. map (\<lambda>val. val / 10) r) pawnTable"
| "pieceSquareTables Queen = map (\<lambda>r. map (\<lambda>val. val / 5) r) pawnTable"
| "pieceSquareTables King = kingTable"

text \<open>\<open>table[r][c]\<close> on an 8 by 8 table; the loops keep \<open>r\<close> and \<open>c\<close> from 0 to 7.\<close>

definition tableAt :: "rat list list \<Rightarrow> int \<Rightarrow> int \<Rightarrow> rat" where
  "tableAt t r c = t ! nat r ! nat c"

text \<open>The loops of \<open>evaluatePosition\<close> over the remaining cells, \<open>score\<close> accumulated.\<close>

fun scoreCells :: "Board \<Rightarrow> (int \<times> int) list \<Rightarrow> rat \<Rightarrow> error + rat" where
  "scoreCells b [] score = Inr score"
| "scoreCells b (rc # rest) score =
     (case cellAt b (fst rc) (snd rc) of
        Inl e \<Rightarrow> Inl e
      | Inr None \<Rightarrow> scoreCells b rest score
      | Inr (Some pc) \<Rightarrow>
          let val = PIECE_VALUES (ptype pc);
              table = pieceSquareTables (ptype pc);
              positionalValue =
                (if color pc = White then tableAt table (fst rc) (snd rc)
                 else tableAt table (7 - fst rc) (snd rc))
          in scoreCells b rest
               (score + (val + positionalValue) * (if color pc = White then 1 else - 1)))"

text \<open>
  \<open>Math.random()\<close> is a source of draws handed to the engine: \<open>rnd g\<close> is the next
  draw and the state of the source after it.
\<close>

definition evaluatePosition ::
  "('g \<Rightarrow> rat \<times> 'g) \<Rightarrow> GameState \<Rightarrow> 'g \<Rightarrow> error + (rat \<times> 'g)" where
  "evaluatePosition rnd gameState g =
     ebind (scoreCells (board gameState) cells64 0) (\<lambda>score.
       let (u, g') = rnd g in Inr (score + (u * 10 - 5), g'))"

text \<open>
  The loop of the maximizing branch of \<open>minimax\<close> over the remaining moves, with
  \<open>maxEval\<close> and \<open>alpha\<close>; \<open>recurse\<close> is the recursive call of \<open>minimax\<close>.
\<close>

fun searchMax ::
  "(GameState \<Rightarrow> int \<Rightarrow> bool \<Rightarrow> JSNumber \<Rightarrow> JSNumber \<Rightarrow> 'g \<Rightarrow> error + (JSNumber \<times> 'g))
     \<Rightarrow> GameState \<Rightarrow> int \<Rightarrow> Move list \<Rightarrow> JSNumber \<Rightarrow> JSNumber \<Rightarrow> JSNumber \<Rightarrow> 'g
     \<Rightarrow> error + (JSNumber \<times> 'g)" where
  "searchMax recurse gameState depth [] maxEval alpha beta g = Inr (maxEval, g)"
| "searchMax recurse gameState depth (move # rest) maxEval alpha beta g =
     (case applyMove gameState move of
        Inl e \<Rightarrow> Inl e
      | Inr childState \<Rightarrow>
          (case recurse childState (depth - 1) False alpha beta g of
             Inl e \<Rightarrow> Inl e
           | Inr (evaluation, g') \<Rightarrow>
               if numLe beta (numMax alpha evaluation)
               then Inr (numMax maxEval evaluation, g')
               else searchMax recurse gameState depth rest (numMax maxEval evaluation)
                      (numMax alpha evaluation) beta g'))"

text \<open>The loop of the minimizing branch, with \<open>minEval\<close> and \<open>beta\<close>.\<close>

fun searchMin ::
  "(GameState \<Rightarrow> int \<Rightarrow> bool \<Rightarrow> JSNumber \<Rightarrow> JSNumber \<Rightarrow> 'g \<Rightarrow> error + (JSNumber \<times> 'g))
     \<Rightarrow> GameState \<Rightarrow> int \<Rightarrow> Move list \<Rightarrow> JSNumber \<Rightarrow> JSNumber \<Rightarrow> JSNumber \<Rightarrow> 'g
     \<Rightarrow> error + (JSNumber \<times> 'g)" where
  "searchMin recurse gameState depth [] minEval alpha beta g = Inr (minEval, g)"
| "searchMin recurse gameState depth (move # rest) minEval alpha beta g =
     (case applyMove gameState move of
        Inl e \<Rightarrow> Inl e
      | Inr childState \<Rightarrow>
          (case recurse childState (depth - 1) True alpha beta g of
             Inl e \<Rightarrow> Inl e
           | Inr (evaluation, g') \<Rightarrow>
               if numLe (numMin beta evaluation) alpha
               then Inr (numMin minEval evaluation, g')
               else searchMin recurse gameState depth rest (numMin minEval evaluation)
                      alpha (numMin beta evaluation) g'))"

text \<open>The first block of \<open>minimax\<close>, taken when \<open>depth === 0 || gameState.isGameOver\<close>.\<close>

definition leafValue ::
  "('g \<Rightarrow> rat \<times> 'g) \<Rightarrow> GameState \<Rightarrow> bool \<Rightarrow> 'g \<Rightarrow> error + (JSNumber \<times> 'g)" where
  "leafValue rnd gameState isMaximizing g =
     (if isCheckmate gameState then Inr (if isMaximizing then NegInfinity else PosInfinity, g)
      else if isStalemate gameState then Inr (Finite 0, g)
      else ebind (evaluatePosition rnd gameState g) (\<lambda>(v, g'). Inr (Finite v, g')))"

text \<open>
  \<open>minimax\<close>. \<open>depth\<close> is an integer, as every caller passes one. The first argument
  after the random source is the number of nested calls the stack still holds: the
  source stops recursing only at \<open>depth === 0\<close> or at a state flagged as over, and an
  exhausted stack is a \<open>RangeError\<close>.
\<close>

primrec minimax ::
  "('g \<Rightarrow> rat \<times> 'g) \<Rightarrow> nat \<Rightarrow> GameState \<Rightarrow> int \<Rightarrow> bool \<Rightarrow> JSNumber \<Rightarrow> JSNumber \<Rightarrow> 'g
     \<Rightarrow> error + (JSNumber \<times> 'g)" where
  "minimax rnd 0 =
     (\<lambda>gameState depth isMaximizing alpha beta g.
        if depth = 0 \<or> isGameOver gameState then leafValue rnd gameState isMaximizing g
        else Inl RangeError)"
| "minimax rnd (Suc fuel) =
     (\<lambda>gameState depth isMaximizing alpha beta g.
        if depth = 0 \<or> isGameOver gameState then leafValue rnd gameState isMaximizing g
        else
          ebind (getAllValidMoves gameState (currentPlayer gameState)) (\<lambda>moves.
            if isMaximizing
            then searchMax (minimax rnd fuel) gameState depth moves NegInfinity alpha beta g
            else searchMin (minimax rnd fuel) gameState depth moves PosInfinity alpha beta g))"

text \<open>
  The loop of \<open>getBestMove\<close> over the shuffled moves, with \<open>bestMove\<close> and \<open>bestValue\<close>.
\<close>

fun pickBest ::
  "('g \<Rightarrow> rat \<times> 'g) \<Rightarrow> nat \<Rightarrow> GameState \<Rightarrow> int \<Rightarrow> Move list \<Rightarrow> Move option \<Rightarrow> JSNumber \<Rightarrow> 'g
     \<Rightarrow> error + (Move option \<times> 'g)" where
  "pickBest rnd fuel gameState depth [] bestMove bestValue g = Inr (bestMove, g)"
| "pickBest rnd fuel gameState depth (move # rest) bestMove bestValue g =
     (case applyMove gameState move of
        Inl e \<Rightarrow> Inl e
      | Inr childState \<Rightarrow>
          (case minimax rnd fuel childState (depth - 1) (currentPlayer gameState = Black)
                  NegInfinity PosInfinity g of
             Inl e \<Rightarrow> Inl e
           | Inr (moveValue, g') \<Rightarrow>
               if currentPlayer gameState = White then
                 (if numLess bestValue moveValue
                  then pickBest rnd fuel gameState depth rest (Some move) moveValue g'
                  else pickBest rnd fuel gameState depth rest bestMove bestValue g')
               else
                 (if numLess moveValue bestValue
                  then pickBest rnd fuel gameState depth rest (Some move) moveValue g'
                  else pickBest rnd fuel gameState depth rest bestMove bestValue g')))"

text \<open>
  \<open>getBestMove\<close>. The sort with a random comparator is the argument \<open>shuffle\<close>: it
  returns the reordered moves and the state of the random source after its draws.
  \<open>bestMove || moves[0]\<close> reads the first of the reordered moves.
\<close>

definition getBestMove ::
  "('g \<Rightarrow> rat \<times> 'g) \<Rightarrow> (Move list \<Rightarrow> 'g \<Rightarrow> Move list \<times> 'g) \<Rightarrow> nat \<Rightarrow> GameState \<Rightarrow> int \<Rightarrow> 'g
     \<Rightarrow> error + (Move option \<times> 'g)" where
  "getBestMove rnd shuffle fuel gameState depth g =
     (case getAllValidMoves gameState (currentPlayer gameState) of
        Inl e \<Rightarrow> Inl e
      | Inr legal \<Rightarrow>
          if length legal = 0 then Inr (None, g)
          else
            let (moves, g1) = shuffle legal g;
                bestValue = (if currentPlayer gameState = White then NegInfinity else PosInfinity)
            in (case pickBest rnd fuel gameState depth moves None bestValue g1 of
                  Inl e \<Rightarrow> Inl e
                | Inr (bestMove, g2) \<Rightarrow>
                    Inr (case bestMove of
                           Some m \<Rightarrow> Some m
                         | None \<Rightarrow> (case moves of [] \<Rightarrow> None | m # _ \<Rightarrow> Some m), g2)))"

section \<open>The scores of the candidates\<close>




section \<open>Standard states\<close>

text \<open>A square whose row, as \<open>squareToPosition\<close> reads it, is one of the rows 0 to 7.\<close>

definition rowOk :: "Square \<Rightarrow> bool" where
  "rowOk sq = (case squareToPosition sq of None \<Rightarrow> False | Some p \<Rightarrow> 0 \<le> row p \<and> row p < 8)"

text \<open>An en-passant target that is unset, has no row, or has a row from 0 to 7.\<close>

definition epRowOk :: "Square option \<Rightarrow> bool" where
  "epRowOk ep =
     (case ep of
        None \<Rightarrow> True
      | Some t \<Rightarrow> (case squareToPosition t of None \<Rightarrow> True | Some p \<Rightarrow> 0 \<le> row p \<and> row p < 8))"

text \<open>
  A state with a board of eight rows and such an en-passant target.
  \<open>createInitialGameState\<close> is one, and \<open>applyMove\<close> keeps states such.
\<close>

definition standardState :: "GameState \<Rightarrow> bool" where
  "standardState s = (length (board s) = 8 \<and> epRowOk (enPassantTarget s))"

section \<open>Example inputs\<close>

text \<open>A random source whose every draw is 0.5, so that the jitter is 0.\<close>

definition fixedRandom :: "nat \<Rightarrow> rat \<times> nat" where
  "fixedRandom n = (1 / 2, Suc n)"


definition emptyRow :: "ChessPiece option list" where
  "emptyRow = replicate 8 None"

text \<open>White: king e1, rooks a1 and h1. Black: king e8. White to move, all rights held.\<close>

definition rookEndgame :: GameState where
  "rookEndgame =
     createInitialGameState
       \<lparr>board :=
          [[None, None, None, None, Some \<lparr>ptype = King, color = Black\<rparr>, None, None, None],
           emptyRow, emptyRow, emptyRow, emptyRow, emptyRow, emptyRow,
           [Some \<lparr>ptype = Rook, color = White\<rparr>, None, None, None,
            Some \<lparr>ptype = King, color = White\<rparr>, None, None,
            Some \<lparr>ptype = Rook, color = White\<rparr>]]\<rparr>"

text \<open>The move of the rook from h1 to h2.\<close>

definition rookLift :: Move where
  "rookLift = mkMove ''h1'' ''h2'' \<lparr>ptype = Rook, color = White\<rparr>"

text \<open>The double advance of the white e-pawn.\<close>

definition pawnE4 :: Move where
  "pawnE4 = mkMove ''e2'' ''e4'' \<lparr>ptype = Pawn, color = White\<rparr>"

text \<open>A board with one piece, a black pawn on e4 (row 4, column 4).\<close>

definition lonePawnBoard :: Board where
  "lonePawnBoard =
     [emptyRow, emptyRow, emptyRow, emptyRow,
      [None, None, None, None, Some \<lparr>ptype = Pawn, color = Black\<rparr>, None, None, None],
      emptyRow, emptyRow, emptyRow]"


text \<open>The initial position flagged as checkmate.\<close>

definition flaggedMate :: GameState where
  "flaggedMate = createInitialGameState\<lparr>isCheckmate := True, isGameOver := True\<rparr>"

text \<open>White: king e1, pawn e4. Black: king e8. White to move.\<close>

definition lonePawnState :: GameState where
  "lonePawnState =
     createInitialGameState
       \<lparr>board :=
          [[None, None, None, None, Some \<lparr>ptype = King, color = Black\<rparr>, None, None, None],
           emptyRow, emptyRow, emptyRow,
           [None, None, None, None, Some \<lparr>ptype = Pawn, color = White\<rparr>, None, None, None],
           emptyRow, emptyRow,
           [None, None, None, None, Some \<lparr>ptype = King, color = White\<rparr>, None, None, None]]\<rparr>"

text \<open>The white pawn going back from e4 to e2, and going from e4 to a6.\<close>

definition pawnRetreat :: Move where
  "pawnRetreat = mkMove ''e4'' ''e2'' \<lparr>ptype = Pawn, color = White\<rparr>"

definition pawnSidestep :: Move where
  "pawnSidestep = mkMove ''e4'' ''a6'' \<lparr>ptype = Pawn, color = White\<rparr>"

text \<open>White: king e1. Black: king e8. White to move.\<close>

definition bareKings :: GameState where
  "bareKings =
     createInitialGameState
       \<lparr>board :=
          [[None, None, None, None, Some \<lparr>ptype = King, color = Black\<rparr>, None, None, None],
           emptyRow, emptyRow, emptyRow, emptyRow, emptyRow, emptyRow,
           [None, None, None, None, Some \<lparr>ptype = King, color = White\<rparr>, None, None, None]]\<rparr>"

section \<open>Basic facts\<close>

lemma ebind_Inr_iff: "ebind m f = Inr y \<longleftrightarrow> (\<exists>x. m = Inr x \<and> f x = Inr y)"
  by (cases m) simp_all

lemma not_isl_Inr: "\<not> isl x \<Longrightarrow> x = Inr (projr x)"
  by (cases x) simp_all

lemma createInitialBoard_value: "createInitialBoard = Inr initialBoard"
  by code_simp

subsection \<open>Squares\<close>

lemma showNat_digit: "n < 10 \<Longrightarrow> showNat n = [char_of (48 + n)]"
  by (simp add: showNat.simps)

lemma parseDigit_Some:
  assumes "parseDigit r = Some d"
  shows "0 \<le> d \<and> d \<le> 9 \<and> char_of (48 + nat d) = r"
proof -
  from assms have r: "48 \<le> (of_char r :: nat)" "(of_char r :: nat) \<le> 57"
    and d: "d = int (of_char r) - 48"
    by (auto simp: parseDigit_def Let_def split: if_splits)
  have "48 + nat d = (of_char r :: nat)" using r d by simp
  then have "char_of (48 + nat d) = r" by (simp only: char_of_char)
  then show ?thesis using r d by simp
qed

lemma positionToSquare_of_parse:
  assumes "parseDigit r = Some d"
  shows "positionToSquare \<lparr>row = 8 - d, col = int (of_char f) - 97\<rparr> = [f, r]"
proof -
  from parseDigit_Some [OF assms] have d: "0 \<le> d" "d \<le> 9" and r: "char_of (48 + nat d) = r"
    by simp_all
  have "showInt d = [r]" using d r by (simp add: showInt_def showNat_digit)
  moreover have "char_of (int (of_char f)) = f" by simp
  ultimately show ?thesis by (simp add: positionToSquare_def)
qed

lemma squareToPosition_positionToSquare:
  assumes "0 \<le> r" "r < 8" "0 \<le> c" "c < 8"
  shows "squareToPosition (positionToSquare \<lparr>row = r, col = c\<rparr>) = Some \<lparr>row = r, col = c\<rparr>"
proof -
  have n: "nat (8 - r) < 10" using assms by simp
  have s: "showInt (8 - r) = [char_of (48 + nat (8 - r))]"
    using assms by (simp add: showInt_def showNat_digit)
  have "(of_char (char_of (48 + nat (8 - r))) :: nat) = 48 + nat (8 - r)"
    using n by simp
  then have p: "parseDigit (char_of (48 + nat (8 - r))) = Some (8 - r)"
    using assms by (simp add: parseDigit_def)
  have "int (of_char (char_of (97 + c))) = (of_char (char_of (97 + c)) :: int)"
    by (rule of_nat_of_char)
  also have "\<dots> = 97 + c" using assms by simp
  finally have c: "int (of_char (char_of (97 + c))) - 97 = c" by simp
  show ?thesis
    by (simp add: positionToSquare_def s squareToPosition_def p c)
qed

subsection \<open>Move application\<close>

lemma applyMove_Inr:
  assumes "applyMove gs m = Inr s'"
  obtains fromPos toPos newBoard where
    "squareToPosition (fromSq m) = Some fromPos"
    "squareToPosition (toSq m) = Some toPos"
    "movePieces (board gs) m fromPos toPos = Inr newBoard"
    "s' = gs\<lparr>board := newBoard,
             currentPlayer := (if currentPlayer gs = White then Black else White),
             moveHistory := moveHistory gs @ [m],
             castlingRights := newCastlingRights (castlingRights gs) m,
             enPassantTarget := newEnPassantTarget m fromPos toPos,
             halfMoveClock :=
               (if ptype (piece m) = Pawn \<or> captured m \<noteq> None then 0 else halfMoveClock gs + 1),
             fullMoveNumber :=
               (if currentPlayer gs = Black then fullMoveNumber gs + 1 else fullMoveNumber gs)\<rparr>"
  using assms unfolding applyMove_def
  by (auto simp: ebind_Inr_iff split: option.splits)

lemma newCastlingRights_sel:
  "whiteKingside (newCastlingRights cr m) =
     (whiteKingside cr \<and> \<not> (ptype (piece m) = King \<and> color (piece m) = White)
        \<and> fromSq m \<noteq> ''h1'' \<and> toSq m \<noteq> ''h1'')"
  "whiteQueenside (newCastlingRights cr m) =
     (whiteQueenside cr \<and> \<not> (ptype (piece m) = King \<and> color (piece m) = White)
        \<and> fromSq m \<noteq> ''a1'' \<and> toSq m \<noteq> ''a1'')"
  "blackKingside (newCastlingRights cr m) =
     (blackKingside cr \<and> \<not> (ptype (piece m) = King \<and> color (piece m) = Black)
        \<and> fromSq m \<noteq> ''h8'' \<and> toSq m \<noteq> ''h8'')"
  "blackQueenside (newCastlingRights cr m) =
     (blackQueenside cr \<and> \<not> (ptype (piece m) = King \<and> color (piece m) = Black)
        \<and> fromSq m \<noteq> ''a8'' \<and> toSq m \<noteq> ''a8'')"
  by (cases "color (piece m)"; simp add: newCastlingRights_def Let_def)+

lemma applyMove_rookLift: "\<not> isl (applyMove rookEndgame rookLift)"
  by code_simp

lemma applyMove_pawnE4: "\<not> isl (applyMove createInitialGameState pawnE4)"
  by code_simp

subsection \<open>Loops and legal moves\<close>

lemma collect_Inr_mem:
  "collect f xs = Inr ys \<Longrightarrow> y \<in> set ys \<Longrightarrow> \<exists>x \<in> set xs. \<exists>zs. f x = Inr zs \<and> y \<in> set zs"
  by (induction xs arbitrary: ys) (auto split: sum.splits)

lemma collect_Inr_each:
  "collect f xs = Inr ys \<Longrightarrow> x \<in> set xs \<Longrightarrow> \<exists>zs. f x = Inr zs \<and> set zs \<subseteq> set ys"
proof (induction xs arbitrary: ys)
  case Nil
  then show ?case by simp
next
  case (Cons a xs)
  from Cons.prems(1) obtain as rest where a: "f a = Inr as" and r: "collect f xs = Inr rest"
    and ys: "ys = as @ rest"
    by (auto split: sum.splits)
  show ?case
  proof (cases "x = a")
    case True
    with a ys show ?thesis by auto
  next
    case False
    with Cons.prems(2) have "x \<in> set xs" by simp
    from Cons.IH [OF r this] ys show ?thesis by auto
  qed
qed

lemma collect_total:
  assumes "\<And>x. x \<in> set xs \<Longrightarrow> \<exists>zs. f x = Inr zs"
  shows "\<exists>ys. collect f xs = Inr ys"
  using assms
proof (induction xs)
  case Nil
  then show ?case by simp
next
  case (Cons a xs)
  from Cons.prems obtain as where a: "f a = Inr as" by auto
  from Cons obtain rest where "collect f xs = Inr rest" by auto
  with a show ?case by simp
qed

lemma keepIfSafe_Inr:
  assumes "keepIfSafe s c m = Inr ms" and "y \<in> set ms"
  shows "y = m \<and> (\<exists>s' k. applyMove s m = Inr s' \<and> findKing (board s') c = Inr (Some k)
                      \<and> isSquareAttacked (board s') k (opponentOf c) = Inr False)"
  using assms unfolding keepIfSafe_def
  by (auto simp: ebind_Inr_iff split: option.splits if_splits)

lemma validMoves_rookEndgame: "\<not> isl (getAllValidMoves rookEndgame White)"
  by code_simp

lemma rookLift_valid: "rookLift \<in> set (projr (getAllValidMoves rookEndgame White))"
  by code_simp

subsection \<open>Search and status\<close>

lemma minimax_depth0_leaf:
  "minimax rnd fuel s 0 isMaximizing alpha beta g = leafValue rnd s isMaximizing g"
  by (cases fuel) simp_all

lemma checkGameStatus_king_found:
  assumes "checkGameStatus s = Inr s'" and "findKing (board s) (currentPlayer s) = Inr (Some k)"
  shows "\<not> (isCheckmate s' \<and> isStalemate s') \<and> isGameOver s' = (isCheckmate s' \<or> isStalemate s')"
  using assms unfolding checkGameStatus_def
  by (auto simp: ebind_Inr_iff Let_def)

lemma checkGameStatus_gameOver:
  assumes "checkGameStatus s = Inr s'"
  shows "isGameOver s' = (isCheckmate s' \<or> isStalemate s')"
  using assms unfolding checkGameStatus_def
  by (auto simp: ebind_Inr_iff Let_def split: option.splits)

subsection \<open>Generated moves keep to the board\<close>

lemma getPieceMovesWith_ignore:
  "getPieceMovesWith attacked b sq pc cr ep True = getPieceMovesWith attacked' b sq pc cr ep True"
  by (simp add: getPieceMovesWith_def getKingMovesWith_def split: PieceType.splits)

lemma cells64_range: "rc \<in> set cells64 \<Longrightarrow> 0 \<le> fst rc \<and> fst rc < 8 \<and> 0 \<le> snd rc \<and> snd rc < 8"
  by (auto simp: cells64_def)

lemma cellAt_8: "length b = 8 \<Longrightarrow> 0 \<le> r \<Longrightarrow> r < 8 \<Longrightarrow> cellAt b r c = Inr (rowCell (b ! nat r) c)"
  by (simp add: cellAt_def)

lemma rowOk_positionToSquare:
  "0 \<le> r \<Longrightarrow> r < 8 \<Longrightarrow> 0 \<le> c \<Longrightarrow> c < 8 \<Longrightarrow> rowOk (positionToSquare \<lparr>row = r, col = c\<rparr>)"
  by (simp add: rowOk_def squareToPosition_positionToSquare)

lemma pieceOn_cell:
  assumes "0 \<le> r" "r < 8" "0 \<le> c" "c < 8" and "cellAt b r c = Inr (Some pc)"
  shows "pieceOn b (positionToSquare \<lparr>row = r, col = c\<rparr>) = Inr (r, c, pc)"
  using assms by (simp add: pieceOn_def squareToPosition_positionToSquare)

lemma stepMove_total:
  assumes "length b = 8"
  shows "\<exists>ms. stepMove b from c pc r cl d = Inr ms \<and> (\<forall>m \<in> set ms. fromSq m = from \<and> rowOk (toSq m))"
  using assms
  by (auto simp: stepMove_def Let_def cellAt_8 mkMove_def rowOk_positionToSquare)

lemma collect_total_prop:
  assumes "\<And>x. x \<in> set xs \<Longrightarrow> \<exists>zs. f x = Inr zs \<and> (\<forall>z \<in> set zs. P z)"
  shows "\<exists>ys. collect f xs = Inr ys \<and> (\<forall>y \<in> set ys. P y)"
  using assms
proof (induction xs)
  case Nil
  then show ?case by simp
next
  case (Cons a xs)
  from Cons.prems obtain as where a: "f a = Inr as" "\<forall>z \<in> set as. P z" by auto
  from Cons obtain rest where "collect f xs = Inr rest" "\<forall>y \<in> set rest. P y" by auto
  with a show ?case by auto
qed

lemma slideRay_total:
  assumes "length b = 8"
  shows "\<exists>ms. slideRay b from c pc r cl d is = Inr ms \<and> (\<forall>m \<in> set ms. fromSq m = from \<and> rowOk (toSq m))"
proof (induction "is")
  case Nil
  then show ?case by simp
next
  case (Cons i "is")
  then obtain rest where rest: "slideRay b from c pc r cl d is = Inr rest"
    "\<forall>m \<in> set rest. fromSq m = from \<and> rowOk (toSq m)" by auto
  show ?case
  proof (cases "r + i * fst d < 0 \<or> r + i * fst d \<ge> 8 \<or> cl + i * snd d < 0 \<or> cl + i * snd d \<ge> 8")
    case True
    then show ?thesis by (simp add: Let_def)
  next
    case False
    then have rng: "0 \<le> r + i * fst d" "r + i * fst d < 8" "0 \<le> cl + i * snd d" "cl + i * snd d < 8"
      by auto
    have cell: "cellAt b (r + i * fst d) (cl + i * snd d) = Inr (rowCell (b ! nat (r + i * fst d)) (cl + i * snd d))"
      using assms rng by (simp add: cellAt_8)
    show ?thesis
      using False rest rng cell
      by (cases "rowCell (b ! nat (r + i * fst d)) (cl + i * snd d)")
         (simp_all add: Let_def mkMove_def rowOk_positionToSquare)
  qed
qed

lemma pawnForward_total:
  assumes "length b = 8" "0 \<le> r" "r < 8" "0 \<le> cl" "cl < 8"
    and "(direction = - 1 \<and> startRow = 6) \<or> (direction = 1 \<and> startRow = 1)"
  shows "\<exists>ms. pawnForward b from pc r cl direction startRow = Inr ms
           \<and> (\<forall>m \<in> set ms. fromSq m = from \<and> rowOk (toSq m))"
proof (cases "r + direction \<ge> 0 \<and> r + direction < 8")
  case False
  then show ?thesis by (auto simp: pawnForward_def)
next
  case True
  then have c1: "cellAt b (r + direction) cl = Inr (rowCell (b ! nat (r + direction)) cl)"
    using assms(1) by (simp add: cellAt_8)
  have ok1: "rowOk (positionToSquare \<lparr>row = r + direction, col = cl\<rparr>)"
    using True assms by (simp add: rowOk_positionToSquare)
  show ?thesis
  proof (cases "r = startRow")
    case False
    with True c1 ok1 show ?thesis
      by (simp add: pawnForward_def Let_def mkMove_def)
  next
    case s: True
    with assms(6) have rng2: "0 \<le> r + 2 * direction" "r + 2 * direction < 8" by auto
    then have c2: "cellAt b (r + 2 * direction) cl = Inr (rowCell (b ! nat (r + 2 * direction)) cl)"
      using assms(1) by (simp add: cellAt_8)
    have ok2: "rowOk (positionToSquare \<lparr>row = r + 2 * direction, col = cl\<rparr>)"
      using rng2 assms by (simp add: rowOk_positionToSquare)
    from True c1 ok1 c2 ok2 s show ?thesis
      by (simp add: pawnForward_def Let_def mkMove_def)
  qed
qed

lemma cellOpt_Some_range:
  "cellOpt b r c = Some t \<Longrightarrow> length b = 8 \<Longrightarrow> 0 \<le> r \<and> r < 8"
  by (auto simp: cellOpt_def split: if_splits)

lemma pawnCapture_good:
  assumes "length b = 8" "epRowOk ep"
    and "m \<in> set (pawnCapture b from pc r cl direction opp ep dCol)"
  shows "fromSq m = from \<and> rowOk (toSq m)"
proof -
  from assms(3) have rng: "0 \<le> cl + dCol" "cl + dCol < 8"
    by (auto simp: pawnCapture_def split: if_splits)
  let ?to = "positionToSquare \<lparr>row = r + direction, col = cl + dCol\<rparr>"
  from assms(3) rng have m: "fromSq m = from \<and> toSq m = ?to"
    by (auto simp: pawnCapture_def Let_def mkMove_def split: if_splits option.splits)
  have "cellOpt b (r + direction) (cl + dCol) \<noteq> None
       \<or> (\<exists>s p. ep = Some s \<and> squareToPosition s = Some p \<and> row p = r + direction)"
  proof (cases "cellOpt b (r + direction) (cl + dCol)")
    case None
    with assms(3) rng show ?thesis
      by (auto simp: pawnCapture_def Let_def split: if_splits option.splits) metis
  next
    case (Some t)
    then show ?thesis by simp
  qed
  then have "0 \<le> r + direction \<and> r + direction < 8"
  proof
    assume "cellOpt b (r + direction) (cl + dCol) \<noteq> None"
    with assms(1) show ?thesis by (auto dest: cellOpt_Some_range)
  next
    assume "\<exists>s p. ep = Some s \<and> squareToPosition s = Some p \<and> row p = r + direction"
    with assms(2) show ?thesis by (auto simp: epRowOk_def)
  qed
  with m rng show ?thesis by (simp add: rowOk_positionToSquare)
qed

lemma getPawnMoves_total:
  assumes "length b = 8" "0 \<le> r" "r < 8" "0 \<le> cl" "cl < 8" "epRowOk ep"
    and "cellAt b r cl = Inr (Some pc)"
  shows "\<exists>ms. getPawnMoves b (positionToSquare \<lparr>row = r, col = cl\<rparr>) c ep = Inr ms
           \<and> (\<forall>m \<in> set ms. fromSq m = positionToSquare \<lparr>row = r, col = cl\<rparr> \<and> rowOk (toSq m))"
proof -
  let ?from = "positionToSquare \<lparr>row = r, col = cl\<rparr>"
  let ?d = "if c = White then - 1 else (1::int)"
  let ?s = "if c = White then 6 else (1::int)"
  have p: "pieceOn b ?from = Inr (r, cl, pc)"
    using assms by (simp add: pieceOn_cell)
  have "(?d = - 1 \<and> ?s = 6) \<or> (?d = 1 \<and> ?s = 1)" by simp
  from pawnForward_total [OF assms(1-5) this, of ?from pc]
  obtain fwd where fwd: "pawnForward b ?from pc r cl ?d ?s = Inr fwd"
    "\<forall>m \<in> set fwd. fromSq m = ?from \<and> rowOk (toSq m)" by blast
  have cap: "\<forall>dCol. \<forall>m \<in> set (pawnCapture b ?from pc r cl ?d (opponentOf c) ep dCol).
                fromSq m = ?from \<and> rowOk (toSq m)"
    using pawnCapture_good [OF assms(1) assms(6)] by blast
  have "getPawnMoves b ?from c ep
          = Inr (fwd @ concat (map (pawnCapture b ?from pc r cl ?d (opponentOf c) ep) [- 1, 1]))"
    by (simp add: getPawnMoves_def p Let_def fwd(1))
  with fwd(2) cap show ?thesis by auto
qed

lemma getSlidingMoves_total:
  assumes "length b = 8" "0 \<le> r" "r < 8" "0 \<le> cl" "cl < 8"
    and "cellAt b r cl = Inr (Some pc)"
  shows "\<exists>ms. getSlidingMoves b (positionToSquare \<lparr>row = r, col = cl\<rparr>) c ds = Inr ms
           \<and> (\<forall>m \<in> set ms. fromSq m = positionToSquare \<lparr>row = r, col = cl\<rparr> \<and> rowOk (toSq m))"
proof -
  have p: "pieceOn b (positionToSquare \<lparr>row = r, col = cl\<rparr>) = Inr (r, cl, pc)"
    using assms by (simp add: pieceOn_cell)
  show ?thesis
    unfolding getSlidingMoves_def p ebind.simps prod.case
    by (rule collect_total_prop) (rule slideRay_total [OF assms(1)])
qed

lemma getKnightMoves_total:
  assumes "length b = 8" "0 \<le> r" "r < 8" "0 \<le> cl" "cl < 8"
    and "cellAt b r cl = Inr (Some pc)"
  shows "\<exists>ms. getKnightMoves b (positionToSquare \<lparr>row = r, col = cl\<rparr>) c = Inr ms
           \<and> (\<forall>m \<in> set ms. fromSq m = positionToSquare \<lparr>row = r, col = cl\<rparr> \<and> rowOk (toSq m))"
proof -
  have p: "pieceOn b (positionToSquare \<lparr>row = r, col = cl\<rparr>) = Inr (r, cl, pc)"
    using assms by (simp add: pieceOn_cell)
  show ?thesis
    unfolding getKnightMoves_def p ebind.simps prod.case
    by (rule collect_total_prop) (rule stepMove_total [OF assms(1)])
qed

lemma allEmpty_total:
  assumes "length b = 8" "0 \<le> r" "r < 8"
  shows "\<exists>e. allEmpty b r cs = Inr e"
  by (induction cs) (auto simp: cellAt_8 [OF assms])

lemma noneAttacked_total:
  assumes "\<forall>sq c. \<exists>a. attacked b sq c = Inr a"
  shows "\<exists>n. noneAttacked attacked b opp ss = Inr n"
proof (induction ss)
  case Nil
  then show ?case by auto
next
  case (Cons s ss)
  from assms obtain a where "attacked b s opp = Inr a" by blast
  with Cons show ?case by auto
qed

lemma castleWing_total:
  assumes "length b = 8" "0 \<le> r" "r < 8" "rowOk dest"
    and "\<forall>sq c. \<exists>a. attacked b sq c = Inr a"
  shows "\<exists>ms. castleWing attacked b from pc opp right r cols sqs dest side = Inr ms
           \<and> (\<forall>m \<in> set ms. fromSq m = from \<and> rowOk (toSq m))"
proof -
  from allEmpty_total [OF assms(1-3)] obtain e where e: "allEmpty b r cols = Inr e" by blast
  from noneAttacked_total [of attacked b opp sqs, OF assms(5)]
  obtain n where n: "noneAttacked attacked b opp sqs = Inr n" by blast
  show ?thesis
    using assms(4) by (simp add: castleWing_def e n mkMove_def)
qed

lemma rowOk_castle: "rowOk ''g1''" "rowOk ''c1''" "rowOk ''g8''" "rowOk ''c8''"
  by code_simp+

lemma castleMoves_total:
  assumes "length b = 8" and "\<forall>sq c. \<exists>a. attacked b sq c = Inr a"
  shows "\<exists>ms. castleMoves attacked b from c pc cr = Inr ms
           \<and> (\<forall>m \<in> set ms. fromSq m = from \<and> rowOk (toSq m))"
proof -
  let ?opp = "opponentOf c"
  from assms(2) obtain a where a: "attacked b from ?opp = Inr a" by blast
  have w: "\<And>right r cols sqs dest side. 0 \<le> r \<Longrightarrow> r < 8 \<Longrightarrow> rowOk dest \<Longrightarrow>
             \<exists>ms. castleWing attacked b from pc ?opp right r cols sqs dest side = Inr ms
                  \<and> (\<forall>m \<in> set ms. fromSq m = from \<and> rowOk (toSq m))"
    using castleWing_total [of b _ _ attacked, OF assms(1) _ _ _ assms(2)] by blast
  from w [of 7 "''g1''" "whiteKingside cr" "[5, 6]" "[''f1'', ''g1'']" Kingside]
  obtain wk where wk: "castleWing attacked b from pc ?opp (whiteKingside cr) 7 [5, 6]
                         [''f1'', ''g1''] ''g1'' Kingside = Inr wk"
    "\<forall>m \<in> set wk. fromSq m = from \<and> rowOk (toSq m)"
    by (auto simp: rowOk_castle)
  from w [of 7 "''c1''" "whiteQueenside cr" "[1, 2, 3]" "[''d1'', ''c1'']" Queenside]
  obtain wq where wq: "castleWing attacked b from pc ?opp (whiteQueenside cr) 7 [1, 2, 3]
                         [''d1'', ''c1''] ''c1'' Queenside = Inr wq"
    "\<forall>m \<in> set wq. fromSq m = from \<and> rowOk (toSq m)"
    by (auto simp: rowOk_castle)
  from w [of 0 "''g8''" "blackKingside cr" "[5, 6]" "[''f8'', ''g8'']" Kingside]
  obtain bk where bk: "castleWing attacked b from pc ?opp (blackKingside cr) 0 [5, 6]
                         [''f8'', ''g8''] ''g8'' Kingside = Inr bk"
    "\<forall>m \<in> set bk. fromSq m = from \<and> rowOk (toSq m)"
    by (auto simp: rowOk_castle)
  from w [of 0 "''c8''" "blackQueenside cr" "[1, 2, 3]" "[''d8'', ''c8'']" Queenside]
  obtain bq where bq: "castleWing attacked b from pc ?opp (blackQueenside cr) 0 [1, 2, 3]
                         [''d8'', ''c8''] ''c8'' Queenside = Inr bq"
    "\<forall>m \<in> set bq. fromSq m = from \<and> rowOk (toSq m)"
    by (auto simp: rowOk_castle)
  show ?thesis
    using a wk wq bk bq by (auto simp: castleMoves_def Let_def)
qed

lemma getKingMovesWith_total:
  assumes "length b = 8" "0 \<le> r" "r < 8" "0 \<le> cl" "cl < 8"
    and "cellAt b r cl = Inr (Some pc)"
    and "ign \<or> (\<forall>sq c. \<exists>a. attacked b sq c = Inr a)"
  shows "\<exists>ms. getKingMovesWith attacked b (positionToSquare \<lparr>row = r, col = cl\<rparr>) c cr ign = Inr ms
           \<and> (\<forall>m \<in> set ms. fromSq m = positionToSquare \<lparr>row = r, col = cl\<rparr> \<and> rowOk (toSq m))"
proof -
  let ?from = "positionToSquare \<lparr>row = r, col = cl\<rparr>"
  have p: "pieceOn b ?from = Inr (r, cl, pc)"
    using assms by (simp add: pieceOn_cell)
  have "\<exists>ys. collect (stepMove b ?from c pc r cl) kingDeltas = Inr ys
          \<and> (\<forall>m \<in> set ys. fromSq m = ?from \<and> rowOk (toSq m))"
    by (rule collect_total_prop) (rule stepMove_total [OF assms(1)])
  then obtain adj where adj: "collect (stepMove b ?from c pc r cl) kingDeltas = Inr adj"
    "\<forall>m \<in> set adj. fromSq m = ?from \<and> rowOk (toSq m)" by blast
  show ?thesis
  proof (cases ign)
    case True
    with adj show ?thesis by (simp add: getKingMovesWith_def p)
  next
    case False
    with assms(7) have "\<forall>sq c. \<exists>a. attacked b sq c = Inr a" by blast
    from castleMoves_total [of b attacked ?from c pc cr, OF assms(1) this]
    obtain cs where "castleMoves attacked b ?from c pc cr = Inr cs"
      "\<forall>m \<in> set cs. fromSq m = ?from \<and> rowOk (toSq m)" by blast
    with adj False show ?thesis by (auto simp: getKingMovesWith_def p)
  qed
qed

lemma getPieceMovesWith_total:
  assumes "length b = 8" "0 \<le> r" "r < 8" "0 \<le> cl" "cl < 8" "epRowOk ep"
    and "cellAt b r cl = Inr (Some pc)"
    and "ign \<or> (\<forall>sq c. \<exists>a. attacked b sq c = Inr a)"
  shows "\<exists>ms. getPieceMovesWith attacked b (positionToSquare \<lparr>row = r, col = cl\<rparr>) pc cr ep ign = Inr ms
           \<and> (\<forall>m \<in> set ms. fromSq m = positionToSquare \<lparr>row = r, col = cl\<rparr> \<and> rowOk (toSq m))"
proof (cases "ptype pc")
  case Pawn
  then show ?thesis
    using getPawnMoves_total [OF assms(1-7)] by (simp add: getPieceMovesWith_def)
next
  case Rook
  then show ?thesis
    using getSlidingMoves_total [OF assms(1-5) assms(7)] by (simp add: getPieceMovesWith_def)
next
  case Knight
  then show ?thesis
    using getKnightMoves_total [OF assms(1-5) assms(7)] by (simp add: getPieceMovesWith_def)
next
  case Bishop
  then show ?thesis
    using getSlidingMoves_total [OF assms(1-5) assms(7)] by (simp add: getPieceMovesWith_def)
next
  case Queen
  then show ?thesis
    using getSlidingMoves_total [OF assms(1-5) assms(7)] by (simp add: getPieceMovesWith_def)
next
  case King
  then show ?thesis
    using getKingMovesWith_total [of b r cl pc ign attacked, OF assms(1-5) assms(7) assms(8)]
    by (simp add: getPieceMovesWith_def)
qed

subsection \<open>No exception on standard states\<close>

lemma epRowOk_None: "epRowOk None"
  by (simp add: epRowOk_def)

lemma scanAttack_total:
  assumes "length b = 8" and "\<forall>rc \<in> set cs. 0 \<le> fst rc \<and> fst rc < 8 \<and> 0 \<le> snd rc \<and> snd rc < 8"
  shows "\<exists>a. scanAttack b square byColor cs = Inr a"
  using assms(2)
proof (induction cs)
  case Nil
  then show ?case by auto
next
  case (Cons rc cs)
  then have rng: "0 \<le> fst rc" "fst rc < 8" "0 \<le> snd rc" "snd rc < 8"
    and rest: "\<exists>a. scanAttack b square byColor cs = Inr a" by auto
  have cell: "cellAt b (fst rc) (snd rc) = Inr (rowCell (b ! nat (fst rc)) (snd rc))"
    using assms(1) rng by (simp add: cellAt_8)
  show ?case
  proof (cases "rowCell (b ! nat (fst rc)) (snd rc)")
    case None
    with cell rest show ?thesis by simp
  next
    case (Some pc)
    with cell have c: "cellAt b (fst rc) (snd rc) = Inr (Some pc)" by simp
    have "\<exists>ms. getPieceMovesWith (\<lambda>_ _ _. Inr False) b
                 (positionToSquare \<lparr>row = fst rc, col = snd rc\<rparr>) pc noRights None True = Inr ms
             \<and> (\<forall>m \<in> set ms. fromSq m = positionToSquare \<lparr>row = fst rc, col = snd rc\<rparr>
                    \<and> rowOk (toSq m))"
      by (rule getPieceMovesWith_total [OF assms(1) rng epRowOk_None c]) simp
    then obtain ms where "getPieceMovesWith (\<lambda>_ _ _. Inr False) b
                 (positionToSquare \<lparr>row = fst rc, col = snd rc\<rparr>) pc noRights None True = Inr ms"
      by blast
    with c rest show ?thesis by auto
  qed
qed

lemma isSquareAttacked_total:
  assumes "length b = 8"
  shows "\<exists>a. isSquareAttacked b square byColor = Inr a"
  unfolding isSquareAttacked_def
  by (rule scanAttack_total [OF assms]) (simp add: cells64_range)

lemma scanKing_total:
  assumes "length b = 8" and "\<forall>rc \<in> set cs. 0 \<le> fst rc \<and> fst rc < 8 \<and> 0 \<le> snd rc \<and> snd rc < 8"
  shows "\<exists>k. scanKing b c cs = Inr k"
  using assms(2)
proof (induction cs)
  case Nil
  then show ?case by simp
next
  case (Cons rc cs)
  then have rng: "0 \<le> fst rc" "fst rc < 8"
    and rest: "\<exists>k. scanKing b c cs = Inr k" by auto
  have cell: "cellAt b (fst rc) (snd rc) = Inr (rowCell (b ! nat (fst rc)) (snd rc))"
    using assms(1) rng by (simp add: cellAt_8)
  show ?case
    using cell rest by (cases "rowCell (b ! nat (fst rc)) (snd rc)") auto
qed

lemma findKing_total:
  assumes "length b = 8"
  shows "\<exists>k. findKing b c = Inr k"
  unfolding findKing_def
  by (rule scanKing_total [OF assms]) (simp add: cells64_range)

lemma setCell_length: "setCell b r c v = Inr b' \<Longrightarrow> length b' = length b"
  by (auto simp: setCell_def split: if_splits)

lemma setCell_total: "0 \<le> r \<Longrightarrow> nat r < length b \<Longrightarrow> \<exists>b'. setCell b r c v = Inr b'"
  by (simp add: setCell_def)

lemma setCell_range: "setCell b r c v = Inr b' \<Longrightarrow> 0 \<le> r \<and> nat r < length b"
  by (auto simp: setCell_def split: if_splits)

lemma moveRook_length: "moveRook b r src dst = Inr b' \<Longrightarrow> length b' = length b"
  by (auto simp: moveRook_def Let_def ebind_Inr_iff dest!: setCell_length)

lemma moveRook_total:
  assumes "0 \<le> r" "nat r < length b"
  shows "\<exists>b'. moveRook b r src dst = Inr b'"
proof -
  from setCell_total [OF assms] obtain b1 where b1: "setCell b r src None = Inr b1" by blast
  then have "length b1 = length b" by (rule setCell_length)
  with assms setCell_total [of r b1 dst "cellOpt b r src"]
  obtain b2 where "setCell b1 r dst (cellOpt b r src) = Inr b2" by auto
  with b1 show ?thesis by (simp add: moveRook_def Let_def)
qed

lemma movePieces_length: "movePieces b m fromPos toPos = Inr b' \<Longrightarrow> length b' = length b"
  unfolding movePieces_def
  by (auto simp: ebind_Inr_iff split: if_splits option.splits CastlingSide.splits
           dest!: setCell_length moveRook_length)

lemma movePieces_range:
  assumes "movePieces b m fromPos toPos = Inr b'"
  shows "0 \<le> row fromPos \<and> nat (row fromPos) < length b \<and> 0 \<le> row toPos \<and> nat (row toPos) < length b"
proof -
  from assms obtain b1 b2 where b1: "setCell b (row fromPos) (col fromPos) None = Inr b1"
    and b2: "setCell b1 (row toPos) (col toPos)
               (Some (case promotion m of Some t \<Rightarrow> (piece m)\<lparr>ptype := t\<rparr> | None \<Rightarrow> piece m)) = Inr b2"
    unfolding movePieces_def by (auto simp: ebind_Inr_iff)
  from setCell_range [OF b1] setCell_range [OF b2] setCell_length [OF b1]
  show ?thesis by simp
qed

lemma movePieces_total:
  assumes "0 \<le> row fromPos" "nat (row fromPos) < length b" "0 \<le> row toPos" "nat (row toPos) < length b"
  shows "\<exists>b'. movePieces b m fromPos toPos = Inr b'"
proof -
  from setCell_total [OF assms(1,2)] obtain b1
    where b1: "setCell b (row fromPos) (col fromPos) None = Inr b1" by blast
  have l1: "length b1 = length b" using b1 by (rule setCell_length)
  from setCell_total [of "row toPos" b1] assms l1 obtain b2
    where b2: "setCell b1 (row toPos) (col toPos)
               (Some (case promotion m of Some t \<Rightarrow> (piece m)\<lparr>ptype := t\<rparr> | None \<Rightarrow> piece m)) = Inr b2"
    by auto
  have l2: "length b2 = length b" using b2 l1 by (auto dest: setCell_length)
  have "\<exists>b3. (if enPassant m then setCell b2 (row fromPos) (col toPos) None else Inr b2) = Inr b3"
    using setCell_total [of "row fromPos" b2] assms l2 by auto
  then obtain b3 where b3: "(if enPassant m then setCell b2 (row fromPos) (col toPos) None else Inr b2) = Inr b3"
    by blast
  have l3: "length b3 = length b" using b3 l2 by (auto dest: setCell_length split: if_splits)
  have rk: "\<And>src dst. \<exists>b4. moveRook b3 (row toPos) src dst = Inr b4"
    using moveRook_total [of "row toPos" b3] assms l3 by auto
  have "\<exists>b4. (case castling m of None \<Rightarrow> Inr b3
               | Some Kingside \<Rightarrow> moveRook b3 (row toPos) 7 5
               | Some Queenside \<Rightarrow> moveRook b3 (row toPos) 0 3) = Inr b4"
    using rk by (auto split: option.splits CastlingSide.splits)
  with b1 b2 b3 show ?thesis
    by (auto simp: movePieces_def)
qed

lemma applyMove_total:
  assumes "length (board s) = 8" "rowOk (fromSq m)" "rowOk (toSq m)"
  shows "\<exists>s'. applyMove s m = Inr s'"
proof -
  from assms(2,3) obtain fromPos toPos where f: "squareToPosition (fromSq m) = Some fromPos"
    "0 \<le> row fromPos" "row fromPos < 8"
    and t: "squareToPosition (toSq m) = Some toPos" "0 \<le> row toPos" "row toPos < 8"
    by (auto simp: rowOk_def split: option.splits)
  have "nat (row fromPos) < length (board s)" "nat (row toPos) < length (board s)"
    using f t assms(1) by simp_all
  from movePieces_total [OF f(2) this(1) t(2) this(2), of m]
  obtain b' where "movePieces (board s) m fromPos toPos = Inr b'" by blast
  with f t show ?thesis by (simp add: applyMove_def)
qed

lemma squareToPosition_row:
  assumes "0 \<le> r" "r < 8"
  shows "\<exists>p. squareToPosition (positionToSquare \<lparr>row = r, col = c\<rparr>) = Some p \<and> row p = r"
proof -
  have n: "nat (8 - r) < 10" using assms by simp
  have s: "showInt (8 - r) = [char_of (48 + nat (8 - r))]"
    using assms by (simp add: showInt_def showNat_digit)
  have "(of_char (char_of (48 + nat (8 - r))) :: nat) = 48 + nat (8 - r)"
    using n by simp
  then have p: "parseDigit (char_of (48 + nat (8 - r))) = Some (8 - r)"
    using assms by (simp add: parseDigit_def)
  show ?thesis
    by (simp add: positionToSquare_def s squareToPosition_def p)
qed

lemma applyMove_standard:
  assumes "applyMove s m = Inr s'" and "standardState s"
  shows "standardState s'"
proof -
  from assms(1) obtain fromPos toPos newBoard where
    mp: "movePieces (board s) m fromPos toPos = Inr newBoard"
    and b: "board s' = newBoard"
    and e: "enPassantTarget s' = newEnPassantTarget m fromPos toPos"
    by (elim applyMove_Inr) simp
  from assms(2) have l: "length (board s) = 8" by (simp add: standardState_def)
  from movePieces_length [OF mp] b l have l': "length (board s') = 8" by simp
  from movePieces_range [OF mp] l
  have rng: "0 \<le> row fromPos" "row fromPos < 8" "0 \<le> row toPos" "row toPos < 8" by auto
  have "epRowOk (newEnPassantTarget m fromPos toPos)"
  proof (cases "ptype (piece m) = Pawn \<and> \<bar>row fromPos - row toPos\<bar> = 2")
    case False
    then show ?thesis by (auto simp: newEnPassantTarget_def epRowOk_def)
  next
    case True
    let ?mid = "(row fromPos + row toPos) div 2"
    from rng have "0 \<le> ?mid" "?mid < 8" by auto
    from squareToPosition_row [OF this, of "col fromPos"] this True
    show ?thesis by (auto simp: newEnPassantTarget_def epRowOk_def)
  qed
  with l' e show ?thesis by (simp add: standardState_def)
qed

lemma standardState_initial: "standardState createInitialGameState"
  by (simp add: standardState_def createInitialGameState_def initialBoard_def epRowOk_def)

lemma applyMove_length: "applyMove s m = Inr s' \<Longrightarrow> length (board s') = length (board s)"
  by (elim applyMove_Inr) (auto dest: movePieces_length)

lemma keepIfSafe_total:
  assumes "length (board s) = 8" "rowOk (fromSq m)" "rowOk (toSq m)"
  shows "\<exists>ms. keepIfSafe s c m = Inr ms"
proof -
  from applyMove_total [OF assms] obtain s' where s': "applyMove s m = Inr s'" by blast
  from applyMove_length [OF s'] assms(1) have l: "length (board s') = 8" by simp
  from findKing_total [OF l] obtain k where k: "findKing (board s') c = Inr k" by blast
  show ?thesis
  proof (cases k)
    case None
    with s' k show ?thesis by (simp add: keepIfSafe_def)
  next
    case (Some sq)
    from isSquareAttacked_total [OF l] obtain a
      where "isSquareAttacked (board s') sq (opponentOf c) = Inr a" by blast
    with s' k Some show ?thesis by (simp add: keepIfSafe_def)
  qed
qed

lemma rowOk_from:
  "0 \<le> r \<Longrightarrow> r < 8 \<Longrightarrow> 0 \<le> c \<Longrightarrow> c < 8 \<Longrightarrow> fromSq m = positionToSquare \<lparr>row = r, col = c\<rparr>
     \<Longrightarrow> rowOk (fromSq m)"
  by (simp add: rowOk_positionToSquare)

lemma validMovesFrom_total:
  assumes "standardState s" "0 \<le> fst rc" "fst rc < 8" "0 \<le> snd rc" "snd rc < 8"
  shows "\<exists>ms. validMovesFrom s c rc = Inr ms"
proof -
  from assms(1) have l: "length (board s) = 8" and ep: "epRowOk (enPassantTarget s)"
    by (simp_all add: standardState_def)
  have cell: "cellAt (board s) (fst rc) (snd rc) = Inr (rowCell (board s ! nat (fst rc)) (snd rc))"
    using l assms by (simp add: cellAt_8)
  show ?thesis
  proof (cases "rowCell (board s ! nat (fst rc)) (snd rc)")
    case None
    with cell show ?thesis by (simp add: validMovesFrom_def)
  next
    case (Some pc)
    with cell have c: "cellAt (board s) (fst rc) (snd rc) = Inr (Some pc)" by simp
    let ?from = "positionToSquare \<lparr>row = fst rc, col = snd rc\<rparr>"
    have att: "False \<or> (\<forall>sq c. \<exists>a. isSquareAttacked (board s) sq c = Inr a)"
      using isSquareAttacked_total [OF l] by blast
    from getPieceMovesWith_total [of "board s" "fst rc" "snd rc" "enPassantTarget s" pc False
           isSquareAttacked "castlingRights s", OF l assms(2-5) ep c att]
    obtain pms where pms: "getPieceMoves (board s) ?from pc (castlingRights s) (enPassantTarget s) False
                              = Inr pms"
      and good: "\<forall>m \<in> set pms. fromSq m = ?from \<and> rowOk (toSq m)"
      unfolding getPieceMoves_def by blast
    have "\<exists>ms. collect (keepIfSafe s c) pms = Inr ms"
    proof (rule collect_total)
      fix m assume "m \<in> set pms"
      with good have "fromSq m = ?from" "rowOk (toSq m)" by auto
      with assms(2-5) have "rowOk (fromSq m)" by (simp add: rowOk_positionToSquare)
      from keepIfSafe_total [OF l this \<open>rowOk (toSq m)\<close>]
      show "\<exists>zs. keepIfSafe s c m = Inr zs" .
    qed
    with c pms show ?thesis by (auto simp: validMovesFrom_def)
  qed
qed

lemma getAllValidMoves_total:
  assumes "standardState s"
  shows "\<exists>ms. getAllValidMoves s c = Inr ms"
  unfolding getAllValidMoves_def
proof (rule collect_total)
  fix rc assume "rc \<in> set cells64"
  from cells64_range [OF this] validMovesFrom_total [OF assms, of rc c]
  show "\<exists>zs. validMovesFrom s c rc = Inr zs" by blast
qed

lemma getAllValidMoves_mem:
  assumes "getAllValidMoves state c = Inr moves" and "m \<in> set moves"
  shows "\<exists>s' k. applyMove state m = Inr s'
               \<and> findKing (board s') c = Inr (Some k)
               \<and> isSquareAttacked (board s') k (opponentOf c) = Inr False"
proof -
  from assms obtain rc ms where ms: "validMovesFrom state c rc = Inr ms" and m: "m \<in> set ms"
    unfolding getAllValidMoves_def by (blast dest: collect_Inr_mem)
  from ms m obtain pms where "collect (keepIfSafe state c) pms = Inr ms"
    unfolding validMovesFrom_def
    by (auto simp: ebind_Inr_iff split: option.splits if_splits)
  with m obtain x ks where "keepIfSafe state c x = Inr ks" and "m \<in> set ks"
    by (blast dest: collect_Inr_mem)
  from keepIfSafe_Inr [OF this] show ?thesis by blast
qed

lemma scoreCells_total:
  assumes "length b = 8" and "\<forall>rc \<in> set cs. 0 \<le> fst rc \<and> fst rc < 8"
  shows "\<exists>v. scoreCells b cs score = Inr v"
  using assms(2)
proof (induction cs arbitrary: score)
  case Nil
  then show ?case by simp
next
  case (Cons rc cs)
  then have rng: "0 \<le> fst rc" "fst rc < 8"
    and rest: "\<And>sc. \<exists>v. scoreCells b cs sc = Inr v" by auto
  have cell: "cellAt b (fst rc) (snd rc) = Inr (rowCell (b ! nat (fst rc)) (snd rc))"
    using assms(1) rng by (simp add: cellAt_8)
  show ?case
    using cell rest by (cases "rowCell (b ! nat (fst rc)) (snd rc)") (simp_all add: Let_def)
qed

lemma evaluatePosition_total:
  assumes "length (board s) = 8"
  shows "\<exists>v g'. evaluatePosition rnd s g = Inr (v, g')"
proof -
  have "\<exists>v. scoreCells (board s) cells64 0 = Inr v"
    by (rule scoreCells_total [OF assms]) (simp add: cells64_range)
  then show ?thesis
    by (auto simp: evaluatePosition_def split: prod.splits)
qed

lemma leafValue_total:
  assumes "length (board s) = 8"
  shows "\<exists>r. leafValue rnd s isMax g = Inr r"
  using evaluatePosition_total [OF assms, of rnd g]
  by (auto simp: leafValue_def)







subsection \<open>The exceptions that can be raised\<close>

text \<open>
  The legal-move functions raise nothing but a \<open>TypeError\<close>: the marker of a failed
  non-null assertion never leaves them. On a standard state the search raises nothing
  but a \<open>RangeError\<close>.
\<close>

lemma ebind_Inl_iff: "ebind m f = Inl e \<longleftrightarrow> m = Inl e \<or> (\<exists>x. m = Inr x \<and> f x = Inl e)"
  by (cases m) simp_all

lemma collect_Inl: "collect f xs = Inl e \<Longrightarrow> \<exists>x \<in> set xs. f x = Inl e"
  by (induction xs) (auto split: sum.splits)

lemma cellAt_Inl: "cellAt b r c = Inl e \<Longrightarrow> e = TypeError"
  by (auto simp: cellAt_def split: if_splits)

lemma setCell_Inl: "setCell b r c v = Inl e \<Longrightarrow> e = TypeError"
  by (auto simp: setCell_def split: if_splits)

lemma stepMove_Inl: "stepMove b from c pc r cl d = Inl e \<Longrightarrow> e = TypeError"
  by (auto simp: stepMove_def Let_def ebind_Inl_iff split: if_splits dest: cellAt_Inl)

lemma slideRay_Inl: "slideRay b from c pc r cl d is = Inl e \<Longrightarrow> e = TypeError"
  by (induction "is") (auto simp: Let_def split: if_splits sum.splits option.splits dest: cellAt_Inl)

lemma pawnForward_Inl: "pawnForward b from pc r cl direction startRow = Inl e \<Longrightarrow> e = TypeError"
  by (auto simp: pawnForward_def Let_def ebind_Inl_iff split: if_splits dest: cellAt_Inl)

lemma allEmpty_Inl: "allEmpty b r cs = Inl e \<Longrightarrow> e = TypeError"
  by (induction cs) (auto split: sum.splits if_splits dest: cellAt_Inl)

lemma noneAttacked_Inl:
  "noneAttacked attacked b opp ss = Inl e \<Longrightarrow> \<exists>sq. attacked b sq opp = Inl e"
  by (induction ss) (auto split: sum.splits if_splits)

lemma castleWing_Inl:
  "castleWing attacked b from pc opp right r cols sqs dest side = Inl e
     \<Longrightarrow> e = TypeError \<or> (\<exists>sq. attacked b sq opp = Inl e)"
  by (auto simp: castleWing_def ebind_Inl_iff split: if_splits
           dest: allEmpty_Inl noneAttacked_Inl)

lemma castleMoves_Inl:
  "castleMoves attacked b from c pc cr = Inl e
     \<Longrightarrow> e = TypeError \<or> (\<exists>sq. attacked b sq (opponentOf c) = Inl e)"
  by (auto simp: castleMoves_def Let_def ebind_Inl_iff split: if_splits dest: castleWing_Inl)

lemma getPawnMoves_Inl:
  "getPawnMoves b from c ep = Inl e \<Longrightarrow> pieceOn b from = Inr x \<Longrightarrow> e = TypeError"
  by (cases x) (auto simp: getPawnMoves_def Let_def ebind_Inl_iff dest: pawnForward_Inl)

lemma getSlidingMoves_Inl:
  assumes "getSlidingMoves b from c ds = Inl e" and "pieceOn b from = Inr x"
  shows "e = TypeError"
proof -
  obtain r cl pc where x: "x = (r, cl, pc)" by (cases x)
  from assms have "collect (\<lambda>d. slideRay b from c pc r cl d [1, 2, 3, 4, 5, 6, 7]) ds = Inl e"
    by (simp add: getSlidingMoves_def x)
  then obtain d where "slideRay b from c pc r cl d [1, 2, 3, 4, 5, 6, 7] = Inl e"
    by (blast dest: collect_Inl)
  then show ?thesis by (rule slideRay_Inl)
qed

lemma getKnightMoves_Inl:
  "getKnightMoves b from c = Inl e \<Longrightarrow> pieceOn b from = Inr x \<Longrightarrow> e = TypeError"
  by (cases x) (auto simp: getKnightMoves_def dest!: collect_Inl stepMove_Inl)

lemma getKingMovesWith_Inl:
  "getKingMovesWith attacked b from c cr ign = Inl e \<Longrightarrow> pieceOn b from = Inr x
     \<Longrightarrow> e = TypeError \<or> (\<not> ign \<and> (\<exists>sq. attacked b sq (opponentOf c) = Inl e))"
  by (cases x)
     (auto simp: getKingMovesWith_def ebind_Inl_iff split: if_splits
           dest!: collect_Inl stepMove_Inl castleMoves_Inl)

lemma getPieceMovesWith_Inl:
  assumes "getPieceMovesWith attacked b (positionToSquare \<lparr>row = r, col = cl\<rparr>) pc cr ep ign = Inl e"
    and "0 \<le> r" "r < 8" "0 \<le> cl" "cl < 8" and "cellAt b r cl = Inr (Some pc)"
  shows "e = TypeError \<or> (\<not> ign \<and> (\<exists>sq c. attacked b sq c = Inl e))"
proof -
  have p: "pieceOn b (positionToSquare \<lparr>row = r, col = cl\<rparr>) = Inr (r, cl, pc)"
    using assms(2-6) by (rule pieceOn_cell)
  show ?thesis
  proof (cases "ptype pc")
    case Pawn
    with assms(1) getPawnMoves_Inl [OF _ p] show ?thesis
      by (simp add: getPieceMovesWith_def)
  next
    case Rook
    with assms(1) getSlidingMoves_Inl [OF _ p] show ?thesis
      by (simp add: getPieceMovesWith_def)
  next
    case Knight
    with assms(1) getKnightMoves_Inl [OF _ p] show ?thesis
      by (simp add: getPieceMovesWith_def)
  next
    case Bishop
    with assms(1) getSlidingMoves_Inl [OF _ p] show ?thesis
      by (simp add: getPieceMovesWith_def)
  next
    case Queen
    with assms(1) getSlidingMoves_Inl [OF _ p] show ?thesis
      by (simp add: getPieceMovesWith_def)
  next
    case King
    with assms(1) getKingMovesWith_Inl [OF _ p, of attacked "color pc" cr ign e] show ?thesis
      by (auto simp: getPieceMovesWith_def)
  qed
qed

lemma scanAttack_Inl:
  assumes "scanAttack b square byColor cs = Inl e"
    and "\<forall>rc \<in> set cs. 0 \<le> fst rc \<and> fst rc < 8 \<and> 0 \<le> snd rc \<and> snd rc < 8"
  shows "e = TypeError"
  using assms
proof (induction cs)
  case Nil
  then show ?case by simp
next
  case (Cons rc cs)
  then have rng: "0 \<le> fst rc" "fst rc < 8" "0 \<le> snd rc" "snd rc < 8" by auto
  show ?case
  proof (cases "cellAt b (fst rc) (snd rc)")
    case (Inl e')
    with Cons.prems(1) show ?thesis by (auto dest: cellAt_Inl)
  next
    case (Inr x)
    show ?thesis
    proof (cases x)
      case None
      with Inr Cons show ?thesis by auto
    next
      case (Some pc)
      with Inr have c: "cellAt b (fst rc) (snd rc) = Inr (Some pc)" by simp
      from getPieceMovesWith_Inl [of "\<lambda>_ _ _. Inr False" b "fst rc" "snd rc" pc noRights None True,
             OF _ rng c]
      have g: "\<And>e'. getPieceMovesWith (\<lambda>_ _ _. Inr False) b
                 (positionToSquare \<lparr>row = fst rc, col = snd rc\<rparr>) pc noRights None True = Inl e'
               \<Longrightarrow> e' = TypeError"
        by blast
      from Cons c g show ?thesis
        by (auto split: if_splits sum.splits)
    qed
  qed
qed

lemma isSquareAttacked_Inl: "isSquareAttacked b square byColor = Inl e \<Longrightarrow> e = TypeError"
  unfolding isSquareAttacked_def
  by (erule scanAttack_Inl) (simp add: cells64_range)

lemma scanKing_Inl: "scanKing b c cs = Inl e \<Longrightarrow> e = TypeError"
  by (induction cs) (auto split: sum.splits option.splits if_splits dest: cellAt_Inl)

lemma findKing_Inl: "findKing b c = Inl e \<Longrightarrow> e = TypeError"
  unfolding findKing_def by (rule scanKing_Inl)

lemma moveRook_Inl: "moveRook b r src dst = Inl e \<Longrightarrow> e = TypeError"
  by (auto simp: moveRook_def Let_def ebind_Inl_iff dest: setCell_Inl)

lemma movePieces_Inl:
  assumes "movePieces b m fromPos toPos = Inl e"
  shows "e = TypeError"
proof -
  have last: "\<And>b3. (case castling m of None \<Rightarrow> Inr b3
                      | Some Kingside \<Rightarrow> moveRook b3 (row toPos) 7 5
                      | Some Queenside \<Rightarrow> moveRook b3 (row toPos) 0 3) = Inl e \<Longrightarrow> e = TypeError"
    by (auto split: option.splits CastlingSide.splits dest: moveRook_Inl)
  have third: "\<And>b2. (if enPassant m then setCell b2 (row fromPos) (col toPos) None else Inr b2) = Inl e
                 \<Longrightarrow> e = TypeError"
    by (auto split: if_splits dest: setCell_Inl)
  from assms show ?thesis
    unfolding movePieces_def ebind_Inl_iff
    by (blast dest: setCell_Inl last third)
qed

lemma applyMove_Inl: "applyMove s m = Inl e \<Longrightarrow> e = TypeError"
  by (auto simp: applyMove_def ebind_Inl_iff split: option.splits dest: movePieces_Inl)

lemma keepIfSafe_Inl: "keepIfSafe s c m = Inl e \<Longrightarrow> e = TypeError"
  by (auto simp: keepIfSafe_def ebind_Inl_iff split: option.splits
           dest: applyMove_Inl findKing_Inl isSquareAttacked_Inl)

lemma validMovesFrom_Inl:
  assumes "validMovesFrom s c rc = Inl e"
    and "0 \<le> fst rc" "fst rc < 8" "0 \<le> snd rc" "snd rc < 8"
  shows "e = TypeError"
proof (cases "cellAt (board s) (fst rc) (snd rc)")
  case (Inl e')
  with assms(1) show ?thesis by (auto simp: validMovesFrom_def dest: cellAt_Inl)
next
  case (Inr x)
  show ?thesis
  proof (cases x)
    case None
    with Inr assms(1) show ?thesis by (simp add: validMovesFrom_def)
  next
    case (Some pc)
    with Inr have c: "cellAt (board s) (fst rc) (snd rc) = Inr (Some pc)" by simp
    from getPieceMovesWith_Inl [of isSquareAttacked "board s" "fst rc" "snd rc" pc
           "castlingRights s" "enPassantTarget s" False, OF _ assms(2-5) c]
    have g: "\<And>e'. getPieceMoves (board s) (positionToSquare \<lparr>row = fst rc, col = snd rc\<rparr>) pc
                 (castlingRights s) (enPassantTarget s) False = Inl e' \<Longrightarrow> e' = TypeError"
      unfolding getPieceMoves_def by (blast dest: isSquareAttacked_Inl)
    from assms(1) c g show ?thesis
      by (auto simp: validMovesFrom_def ebind_Inl_iff split: if_splits
               dest!: collect_Inl keepIfSafe_Inl)
  qed
qed

lemma getAllValidMoves_Inl: "getAllValidMoves s c = Inl e \<Longrightarrow> e = TypeError"
  unfolding getAllValidMoves_def
  by (auto dest!: collect_Inl cells64_range validMovesFrom_Inl)

lemma checkGameStatus_total:
  assumes "standardState s"
  shows "\<exists>s'. checkGameStatus s = Inr s'"
proof -
  from assms have l: "length (board s) = 8" by (simp add: standardState_def)
  from findKing_total [OF l] obtain k where k: "findKing (board s) (currentPlayer s) = Inr k"
    by blast
  show ?thesis
  proof (cases k)
    case None
    with k show ?thesis by (simp add: checkGameStatus_def)
  next
    case (Some sq)
    from isSquareAttacked_total [OF l] obtain a where
      "isSquareAttacked (board s) sq (if currentPlayer s = White then Black else White) = Inr a"
      by blast
    moreover from getAllValidMoves_total [OF assms] obtain ms
      where "getAllValidMoves s (currentPlayer s) = Inr ms" by blast
    ultimately show ?thesis using k Some by (simp add: checkGameStatus_def Let_def)
  qed
qed

lemma searchMax_Inl:
  assumes "searchMax recurse s depth moves maxEval alpha beta g = Inl e"
    and "\<forall>m \<in> set moves. \<exists>child. applyMove s m = Inr child
           \<and> (\<forall>a b g e'. recurse child (depth - 1) False a b g = Inl e' \<longrightarrow> e' = RangeError)"
  shows "e = RangeError"
  using assms
proof (induction moves arbitrary: maxEval alpha g)
  case Nil
  then show ?case by simp
next
  case (Cons m moves)
  from Cons.prems(2) obtain child where c: "applyMove s m = Inr child"
    and r: "\<forall>a b g e'. recurse child (depth - 1) False a b g = Inl e' \<longrightarrow> e' = RangeError"
    by auto
  show ?case
  proof (cases "recurse child (depth - 1) False alpha beta g")
    case (Inl e')
    with Cons.prems(1) c r show ?thesis by auto
  next
    case (Inr x)
    obtain ev g' where x: "x = (ev, g')" by (cases x)
    from Cons.prems(1) c Inr x
    have "searchMax recurse s depth moves (numMax maxEval ev) (numMax alpha ev) beta g' = Inl e"
      by (auto split: if_splits)
    from Cons.IH [OF this] Cons.prems(2) show ?thesis by simp
  qed
qed

lemma searchMin_Inl:
  assumes "searchMin recurse s depth moves minEval alpha beta g = Inl e"
    and "\<forall>m \<in> set moves. \<exists>child. applyMove s m = Inr child
           \<and> (\<forall>a b g e'. recurse child (depth - 1) True a b g = Inl e' \<longrightarrow> e' = RangeError)"
  shows "e = RangeError"
  using assms
proof (induction moves arbitrary: minEval beta g)
  case Nil
  then show ?case by simp
next
  case (Cons m moves)
  from Cons.prems(2) obtain child where c: "applyMove s m = Inr child"
    and r: "\<forall>a b g e'. recurse child (depth - 1) True a b g = Inl e' \<longrightarrow> e' = RangeError"
    by auto
  show ?case
  proof (cases "recurse child (depth - 1) True alpha beta g")
    case (Inl e')
    with Cons.prems(1) c r show ?thesis by auto
  next
    case (Inr x)
    obtain ev g' where x: "x = (ev, g')" by (cases x)
    from Cons.prems(1) c Inr x
    have "searchMin recurse s depth moves (numMin minEval ev) alpha (numMin beta ev) g' = Inl e"
      by (auto split: if_splits)
    from Cons.IH [OF this] Cons.prems(2) show ?thesis by simp
  qed
qed

lemma minimax_Inl:
  assumes "standardState s" and "minimax rnd fuel s depth isMax alpha beta g = Inl e"
  shows "e = RangeError"
  using assms
proof (induction fuel arbitrary: s depth isMax alpha beta g e)
  case 0
  then have l: "length (board s) = 8" by (simp add: standardState_def)
  from leafValue_total [OF l, of rnd isMax g] "0.prems"(2) show ?case
    by (auto split: if_splits)
next
  case (Suc fuel)
  from Suc.prems(1) have l: "length (board s) = 8" by (simp add: standardState_def)
  show ?case
  proof (cases "depth = 0 \<or> isGameOver s")
    case True
    with leafValue_total [OF l, of rnd isMax g] Suc.prems(2) show ?thesis by auto
  next
    case False
    from getAllValidMoves_total [OF Suc.prems(1)] obtain moves
      where moves: "getAllValidMoves s (currentPlayer s) = Inr moves" by blast
    have kids: "\<forall>m \<in> set moves. \<exists>child. applyMove s m = Inr child
                  \<and> (\<forall>mx a b g e'. minimax rnd fuel child (depth - 1) mx a b g = Inl e'
                         \<longrightarrow> e' = RangeError)"
    proof
      fix m assume "m \<in> set moves"
      from getAllValidMoves_mem [OF moves this] obtain child
        where c: "applyMove s m = Inr child" by blast
      from applyMove_standard [OF c Suc.prems(1)] have "standardState child" .
      from Suc.IH [OF this] c
      show "\<exists>child. applyMove s m = Inr child
              \<and> (\<forall>mx a b g e'. minimax rnd fuel child (depth - 1) mx a b g = Inl e'
                     \<longrightarrow> e' = RangeError)"
        by blast
    qed
    show ?thesis
    proof (cases isMax)
      case True
      with Suc.prems(2) False moves
      have "searchMax (minimax rnd fuel) s depth moves NegInfinity alpha beta g = Inl e" by simp
      then show ?thesis by (rule searchMax_Inl) (use kids in blast)
    next
      case isMin: False
      with Suc.prems(2) False moves
      have "searchMin (minimax rnd fuel) s depth moves PosInfinity alpha beta g = Inl e" by simp
      then show ?thesis by (rule searchMin_Inl) (use kids in blast)
    qed
  qed
qed

lemma pickBest_Inl:
  assumes "pickBest rnd fuel s depth moves best bv g = Inl e"
    and "\<forall>m \<in> set moves. \<exists>child. applyMove s m = Inr child \<and> standardState child"
  shows "e = RangeError"
  using assms
proof (induction moves arbitrary: best bv g)
  case Nil
  then show ?case by simp
next
  case (Cons m moves)
  from Cons.prems(2) obtain child where c: "applyMove s m = Inr child" and st: "standardState child"
    by auto
  show ?case
  proof (cases "minimax rnd fuel child (depth - 1) (currentPlayer s = Black) NegInfinity PosInfinity g")
    case (Inl e')
    with Cons.prems(1) c minimax_Inl [OF st Inl] show ?thesis by simp
  next
    case (Inr x)
    obtain v g' where x: "x = (v, g')" by (cases x)
    from Cons.prems(1) c Inr x obtain b' bv' where
      "pickBest rnd fuel s depth moves b' bv' g' = Inl e"
      by (auto split: if_splits)
    from Cons.IH [OF this] Cons.prems(2) show ?thesis by simp
  qed
qed

lemma getBestMove_Inl:
  assumes "\<forall>ms g. mset (fst (shuffle ms g)) = mset ms"
    and "standardState s" and "getBestMove rnd shuffle fuel s depth g = Inl e"
  shows "e = RangeError"
proof -
  from getAllValidMoves_total [OF assms(2)] obtain legal
    where legal: "getAllValidMoves s (currentPlayer s) = Inr legal" by blast
  obtain moves g1 where sh: "shuffle legal g = (moves, g1)" by (cases "shuffle legal g")
  with assms(1) have "mset moves = mset legal" by (metis fst_conv)
  then have set: "set moves = set legal" by (rule mset_eq_setD)
  have kids: "\<forall>m \<in> set moves. \<exists>child. applyMove s m = Inr child \<and> standardState child"
  proof
    fix m assume "m \<in> set moves"
    with set have "m \<in> set legal" by simp
    from getAllValidMoves_mem [OF legal this] obtain child
      where c: "applyMove s m = Inr child" by blast
    from applyMove_standard [OF c assms(2)] c
    show "\<exists>child. applyMove s m = Inr child \<and> standardState child" by blast
  qed
  from assms(3) legal sh obtain bv where "pickBest rnd fuel s depth moves None bv g1 = Inl e"
    by (auto simp: getBestMove_def split: if_splits sum.splits prod.splits)
  from pickBest_Inl [OF this kids] show ?thesis .
qed

subsection \<open>The choice among the candidates\<close>




















subsection \<open>The status flags in the hook\<close>

lemma checkGameStatus_both:
  assumes "checkGameStatus s = Inr s'"
  shows "(isCheckmate s' \<and> isStalemate s')
           \<longleftrightarrow> (isStalemate s \<and> findKing (board s) (currentPlayer s) = Inr None)"
proof -
  from assms obtain k where k: "findKing (board s) (currentPlayer s) = Inr k"
    unfolding checkGameStatus_def by (auto simp: ebind_Inr_iff Let_def)
  show ?thesis
  proof (cases k)
    case None
    with assms k show ?thesis by (auto simp: checkGameStatus_def)
  next
    case (Some sq)
    with assms k show ?thesis
      by (auto simp: checkGameStatus_def ebind_Inr_iff Let_def)
  qed
qed

lemma applyMove_isStalemate: "applyMove s m = Inr t \<Longrightarrow> isStalemate t = isStalemate s"
  by (elim applyMove_Inr) simp

lemma replay_isStalemate: "replay t ms = Inr t' \<Longrightarrow> isStalemate t' = isStalemate t"
  by (induction ms arbitrary: t) (auto split: sum.splits dest: applyMove_isStalemate)

lemma makeMove_exclusive:
  assumes "makeMove gs m = Inr gs'"
    and "isGameOver gs = (isCheckmate gs \<or> isStalemate gs)"
    and "\<not> (isCheckmate gs \<and> isStalemate gs)"
  shows "isGameOver gs' = (isCheckmate gs' \<or> isStalemate gs')
           \<and> \<not> (isCheckmate gs' \<and> isStalemate gs')"
proof (cases "isGameOver gs")
  case True
  with assms show ?thesis by (simp add: makeMove_def)
next
  case False
  with assms(1) obtain t where t: "applyMove gs m = Inr t" and c: "checkGameStatus t = Inr gs'"
    by (auto simp: makeMove_def ebind_Inr_iff)
  from False assms(2) have "\<not> isStalemate gs" by simp
  with applyMove_isStalemate [OF t] have "\<not> isStalemate t" by simp
  with checkGameStatus_both [OF c] checkGameStatus_gameOver [OF c] show ?thesis by simp
qed

lemma undoMove_exclusive:
  assumes "undoMove gs = Inr gs'"
    and "isGameOver gs = (isCheckmate gs \<or> isStalemate gs)"
    and "\<not> (isCheckmate gs \<and> isStalemate gs)"
  shows "isGameOver gs' = (isCheckmate gs' \<or> isStalemate gs')
           \<and> \<not> (isCheckmate gs' \<and> isStalemate gs')"
proof (cases "length (moveHistory gs) < 2")
  case True
  with assms show ?thesis by (simp add: undoMove_def)
next
  case False
  with assms(1) obtain t where
    t: "replay createInitialGameState (take (length (moveHistory gs) - 2) (moveHistory gs)) = Inr t"
    and c: "checkGameStatus t = Inr gs'"
    by (auto simp: undoMove_def ebind_Inr_iff)
  from replay_isStalemate [OF t] have "\<not> isStalemate t"
    by (simp add: createInitialGameState_def)
  with checkGameStatus_both [OF c] checkGameStatus_gameOver [OF c] show ?thesis by simp
qed


lemma validMoves_bareKings: "\<not> isl (getAllValidMoves bareKings White)"
  by code_simp

lemma initial_moves_value:
  "getAllValidMoves createInitialGameState White = Inr
     (concat (map (\<lambda>f. [mkMove [f, CHR ''2''] [f, CHR ''3''] \<lparr>ptype = Pawn, color = White\<rparr>,
                        mkMove [f, CHR ''2''] [f, CHR ''4''] \<lparr>ptype = Pawn, color = White\<rparr>])
                ''abcdefgh'')
      @ [mkMove ''b1'' ''c3'' \<lparr>ptype = Knight, color = White\<rparr>,
         mkMove ''b1'' ''a3'' \<lparr>ptype = Knight, color = White\<rparr>,
         mkMove ''g1'' ''h3'' \<lparr>ptype = Knight, color = White\<rparr>,
         mkMove ''g1'' ''f3'' \<lparr>ptype = Knight, color = White\<rparr>])"
  by code_simp

section \<open>Claims\<close>

text \<open>
  C8. For each of the 64 valid square identifiers (file a to h, rank 1 to 8),
  \<open>positionToSquare (squareToPosition s) = s\<close>: the conversion returns a position (no
  \<open>NaN\<close> coordinate) and \<open>positionToSquare\<close> maps that position back to the square.
\<close>

theorem square_roundtrip:
  assumes "f \<in> set ''abcdefgh''" and "r \<in> set ''12345678''"
  shows "map_option positionToSquare (squareToPosition [f, r]) = Some [f, r]"
proof -
  from assms(2) obtain d where d: "parseDigit r = Some d"
    by (auto simp: parseDigit_def)
  show ?thesis
    by (simp add: squareToPosition_def d positionToSquare_of_parse)
qed

theorem square_roundtrip_witness:
  "CHR ''e'' \<in> set ''abcdefgh'' \<and> CHR ''4'' \<in> set ''12345678''
     \<and> map_option positionToSquare (squareToPosition ''e4'') = Some ''e4''"
  using square_roundtrip [of "CHR ''e''" "CHR ''4''"] by simp

text \<open>
  C9. Whenever \<open>applyMove\<close> returns a state, its \<open>isCheck\<close>, \<open>isCheckmate\<close>,
  \<open>isStalemate\<close> and \<open>isGameOver\<close> are those of the state it was given: the four flags
  are copied, never recomputed.
\<close>

theorem applyMove_keeps_status:
  assumes "applyMove s m = Inr s'"
  shows "isCheck s' = isCheck s \<and> isCheckmate s' = isCheckmate s
           \<and> isStalemate s' = isStalemate s \<and> isGameOver s' = isGameOver s"
  using assms by (elim applyMove_Inr) simp

theorem applyMove_keeps_status_witness:
  "\<exists>s'. applyMove createInitialGameState pawnE4 = Inr s'
         \<and> isCheck s' = isCheck createInitialGameState
         \<and> isCheckmate s' = isCheckmate createInitialGameState
         \<and> isStalemate s' = isStalemate createInitialGameState
         \<and> isGameOver s' = isGameOver createInitialGameState"
proof -
  have h: "applyMove createInitialGameState pawnE4
             = Inr (projr (applyMove createInitialGameState pawnE4))"
    by (rule not_isl_Inr [OF applyMove_pawnE4])
  from applyMove_keeps_status [OF h] h show ?thesis by blast
qed

text \<open>
  C2. Whenever \<open>applyMove\<close> returns a state, each of its four castling rights is false
  if it was false before (no right is granted again), and a right is revoked when the
  moving piece is the king of that colour or when the from- or to-square of the move is
  the home corner of that wing's rook. The four equations say that nothing else
  revokes a right.
\<close>

theorem applyMove_castlingRights:
  assumes "applyMove s m = Inr s'"
  shows "(whiteKingside (castlingRights s') \<longrightarrow> whiteKingside (castlingRights s))
       \<and> (whiteQueenside (castlingRights s') \<longrightarrow> whiteQueenside (castlingRights s))
       \<and> (blackKingside (castlingRights s') \<longrightarrow> blackKingside (castlingRights s))
       \<and> (blackQueenside (castlingRights s') \<longrightarrow> blackQueenside (castlingRights s))
       \<and> (ptype (piece m) = King \<and> color (piece m) = White \<longrightarrow>
            \<not> whiteKingside (castlingRights s') \<and> \<not> whiteQueenside (castlingRights s'))
       \<and> (ptype (piece m) = King \<and> color (piece m) = Black \<longrightarrow>
            \<not> blackKingside (castlingRights s') \<and> \<not> blackQueenside (castlingRights s'))
       \<and> (fromSq m = ''h1'' \<or> toSq m = ''h1'' \<longrightarrow> \<not> whiteKingside (castlingRights s'))
       \<and> (fromSq m = ''a1'' \<or> toSq m = ''a1'' \<longrightarrow> \<not> whiteQueenside (castlingRights s'))
       \<and> (fromSq m = ''h8'' \<or> toSq m = ''h8'' \<longrightarrow> \<not> blackKingside (castlingRights s'))
       \<and> (fromSq m = ''a8'' \<or> toSq m = ''a8'' \<longrightarrow> \<not> blackQueenside (castlingRights s'))
       \<and> whiteKingside (castlingRights s') =
           (whiteKingside (castlingRights s)
              \<and> \<not> (ptype (piece m) = King \<and> color (piece m) = White)
              \<and> fromSq m \<noteq> ''h1'' \<and> toSq m \<noteq> ''h1'')
       \<and> whiteQueenside (castlingRights s') =
           (whiteQueenside (castlingRights s)
              \<and> \<not> (ptype (piece m) = King \<and> color (piece m) = White)
              \<and> fromSq m \<noteq> ''a1'' \<and> toSq m \<noteq> ''a1'')
       \<and> blackKingside (castlingRights s') =
           (blackKingside (castlingRights s)
              \<and> \<not> (ptype (piece m) = King \<and> color (piece m) = Black)
              \<and> fromSq m \<noteq> ''h8'' \<and> toSq m \<noteq> ''h8'')
       \<and> blackQueenside (castlingRights s') =
           (blackQueenside (castlingRights s)
              \<and> \<not> (ptype (piece m) = King \<and> color (piece m) = Black)
              \<and> fromSq m \<noteq> ''a8'' \<and> toSq m \<noteq> ''a8'')"
proof -
  from assms have "castlingRights s' = newCastlingRights (castlingRights s) m"
    by (elim applyMove_Inr) simp
  then show ?thesis
    by (simp add: newCastlingRights_sel)
qed

theorem applyMove_castlingRights_witness:
  "\<exists>s'. applyMove rookEndgame rookLift = Inr s'
         \<and> \<not> whiteKingside (castlingRights s') \<and> whiteQueenside (castlingRights s')
         \<and> blackKingside (castlingRights s') \<and> blackQueenside (castlingRights s')"
proof -
  have h: "applyMove rookEndgame rookLift = Inr (projr (applyMove rookEndgame rookLift))"
    by (rule not_isl_Inr [OF applyMove_rookLift])
  have "castlingRights rookEndgame
          = \<lparr>whiteKingside = True, whiteQueenside = True,
             blackKingside = True, blackQueenside = True\<rparr>"
    by (simp add: rookEndgame_def createInitialGameState_def)
  moreover have "fromSq rookLift = ''h1''" "toSq rookLift = ''h2''" "ptype (piece rookLift) = Rook"
    by (simp_all add: rookLift_def mkMove_def)
  ultimately show ?thesis
    using applyMove_castlingRights [OF h] h by (intro exI [of _ "projr (applyMove rookEndgame rookLift)"]) simp
qed

text \<open>
  C3, as amended. Whenever \<open>applyMove\<close> returns a state, its \<open>enPassantTarget\<close> is set
  exactly when the moving piece is a pawn and the rows of the from- and the to-square
  are two apart, in either direction and whatever the columns; it is then the square
  of the row between them, in the column of the from-square. Every other move leaves
  it unset. The target of the state given does not enter.
\<close>

theorem applyMove_enPassantTarget:
  assumes "applyMove s m = Inr s'"
  shows "\<exists>fromPos toPos.
           squareToPosition (fromSq m) = Some fromPos
         \<and> squareToPosition (toSq m) = Some toPos
         \<and> (enPassantTarget s' \<noteq> None
              \<longleftrightarrow> ptype (piece m) = Pawn \<and> \<bar>row fromPos - row toPos\<bar> = 2)
         \<and> (enPassantTarget s' \<noteq> None \<longrightarrow>
              enPassantTarget s' =
                Some (positionToSquare
                        \<lparr>row = (row fromPos + row toPos) div 2, col = col fromPos\<rparr>))"
  using assms by (elim applyMove_Inr) (auto simp: newEnPassantTarget_def)

theorem applyMove_enPassantTarget_witness:
  "\<exists>s'. applyMove createInitialGameState pawnE4 = Inr s' \<and> enPassantTarget s' = Some ''e3''"
proof -
  have h: "applyMove createInitialGameState pawnE4
             = Inr (projr (applyMove createInitialGameState pawnE4))"
    by (rule not_isl_Inr [OF applyMove_pawnE4])
  have f: "squareToPosition (fromSq pawnE4) = Some \<lparr>row = 6, col = 4\<rparr>"
    and t: "squareToPosition (toSq pawnE4) = Some \<lparr>row = 4, col = 4\<rparr>"
    by code_simp+
  have e: "positionToSquare \<lparr>row = 5, col = 4\<rparr> = ''e3''"
    by code_simp
  have p: "ptype (piece pawnE4) = Pawn"
    by (simp add: pawnE4_def mkMove_def)
  from applyMove_enPassantTarget [OF h] f t e p
  have "enPassantTarget (projr (applyMove createInitialGameState pawnE4)) = Some ''e3''"
    by auto
  with h show ?thesis by blast
qed

text \<open>
  C3 as stated fails on pawn moves that are no advance of two rows. White advances
  towards row 0. For the white pawn going back from e4 (row 4) to e2 (row 6) the target
  is set, to e3; for the pawn going from e4 to a6 it is set to e5, a square the move
  does not pass.
\<close>

theorem applyMove_enPassantTarget_counterexample:
  "\<not> isl (applyMove lonePawnState pawnRetreat)
   \<and> color (piece pawnRetreat) = White
   \<and> squareToPosition (fromSq pawnRetreat) = Some \<lparr>row = 4, col = 4\<rparr>
   \<and> squareToPosition (toSq pawnRetreat) = Some \<lparr>row = 6, col = 4\<rparr>
   \<and> enPassantTarget (projr (applyMove lonePawnState pawnRetreat)) = Some ''e3''
   \<and> \<not> isl (applyMove lonePawnState pawnSidestep)
   \<and> squareToPosition (fromSq pawnSidestep) = Some \<lparr>row = 4, col = 4\<rparr>
   \<and> squareToPosition (toSq pawnSidestep) = Some \<lparr>row = 2, col = 0\<rparr>
   \<and> enPassantTarget (projr (applyMove lonePawnState pawnSidestep)) = Some ''e5''"
  by code_simp

text \<open>
  C10. \<open>isSquareAttacked\<close> reports the destinations of pseudo-legal moves. On a board
  whose only piece is a black pawn on e4: the empty square e3 straight in front of
  the pawn is reported as attacked by black, and the empty square d3 diagonally in
  front of it is reported as not attacked.
\<close>

theorem pawn_attack_coverage:
  "cellAt lonePawnBoard 4 4 = Inr (Some \<lparr>ptype = Pawn, color = Black\<rparr>)
   \<and> squareToPosition ''e3'' = Some \<lparr>row = 5, col = 4\<rparr>
   \<and> cellAt lonePawnBoard 5 4 = Inr None
   \<and> isSquareAttacked lonePawnBoard ''e3'' Black = Inr True
   \<and> squareToPosition ''d3'' = Some \<lparr>row = 5, col = 3\<rparr>
   \<and> cellAt lonePawnBoard 5 3 = Inr None
   \<and> isSquareAttacked lonePawnBoard ''d3'' Black = Inr False"
  by code_simp

text \<open>
  C1. Every move that \<open>getAllValidMoves state c\<close> returns can be applied to the state,
  and in the state after it \<open>findKing\<close> finds the king of \<open>c\<close> on a square that
  \<open>isSquareAttacked\<close> reports as not attacked by the other colour.
\<close>

theorem getAllValidMoves_king_safe:
  assumes "getAllValidMoves state c = Inr moves" and "m \<in> set moves"
  shows "\<exists>s' k. applyMove state m = Inr s'
               \<and> findKing (board s') c = Inr (Some k)
               \<and> isSquareAttacked (board s') k (opponentOf c) = Inr False"
  using assms by (rule getAllValidMoves_mem)

theorem getAllValidMoves_king_safe_witness:
  "\<exists>moves. getAllValidMoves rookEndgame White = Inr moves \<and> rookLift \<in> set moves
     \<and> (\<exists>s' k. applyMove rookEndgame rookLift = Inr s'
               \<and> findKing (board s') White = Inr (Some k)
               \<and> isSquareAttacked (board s') k (opponentOf White) = Inr False)"
proof -
  have h: "getAllValidMoves rookEndgame White = Inr (projr (getAllValidMoves rookEndgame White))"
    by (rule not_isl_Inr [OF validMoves_rookEndgame])
  from getAllValidMoves_king_safe [OF h rookLift_valid] h rookLift_valid
  show ?thesis by blast
qed

text \<open>
  C4. From the state of \<open>createInitialGameState\<close>, \<open>getAllValidMoves\<close> for white returns
  exactly 20 moves: for each file a to h the single and the double advance of its pawn
  (8 and 8), then the four knight moves b1-c3, b1-a3, g1-h3 and g1-f3.
\<close>

theorem initial_legal_moves:
  "\<exists>moves. getAllValidMoves createInitialGameState White = Inr moves
     \<and> length moves = 20
     \<and> moves =
         concat (map (\<lambda>f. [mkMove [f, CHR ''2''] [f, CHR ''3''] \<lparr>ptype = Pawn, color = White\<rparr>,
                           mkMove [f, CHR ''2''] [f, CHR ''4''] \<lparr>ptype = Pawn, color = White\<rparr>])
                   ''abcdefgh'')
         @ [mkMove ''b1'' ''c3'' \<lparr>ptype = Knight, color = White\<rparr>,
            mkMove ''b1'' ''a3'' \<lparr>ptype = Knight, color = White\<rparr>,
            mkMove ''g1'' ''h3'' \<lparr>ptype = Knight, color = White\<rparr>,
            mkMove ''g1'' ''f3'' \<lparr>ptype = Knight, color = White\<rparr>]"
  by (simp add: initial_moves_value)

text \<open>
  C5, as amended. For every state whose \<open>isCheckmate\<close> and \<open>isStalemate\<close> flags are both
  false, every window and either flag, \<open>minimax\<close> at depth 0 returns what
  \<open>evaluatePosition\<close> returns for that state on the same draw of the random source:
  the static sum plus the jitter. (With a flag set it returns an infinity or 0, as the
  counterexample shows for the checkmate flag.)
\<close>

theorem minimax_depth0:
  assumes "\<not> isCheckmate s" and "\<not> isStalemate s"
  shows "minimax rnd fuel s 0 isMaximizing alpha beta g
           = ebind (evaluatePosition rnd s g) (\<lambda>(v, g'). Inr (Finite v, g'))"
  using assms by (cases fuel) (simp_all add: leafValue_def)

theorem minimax_depth0_witness:
  "\<not> isCheckmate createInitialGameState \<and> \<not> isStalemate createInitialGameState
   \<and> minimax fixedRandom 0 createInitialGameState 0 True NegInfinity PosInfinity 0
       = Inr (Finite 0, 1)"
proof -
  have f: "\<not> isCheckmate createInitialGameState" "\<not> isStalemate createInitialGameState"
    by (simp_all add: createInitialGameState_def)
  have e: "evaluatePosition fixedRandom createInitialGameState 0 = Inr (0, 1)"
    by code_simp
  from minimax_depth0 [OF f, of fixedRandom 0 True NegInfinity PosInfinity 0] e f
  show ?thesis by simp
qed

text \<open>
  C5 as stated fails on a state that carries the checkmate flag: \<open>minimax\<close> at depth 0
  returns \<open>-Infinity\<close> there, while \<open>evaluatePosition\<close> returns 0 on the same draw.
\<close>

theorem minimax_depth0_counterexample:
  "minimax fixedRandom 0 flaggedMate 0 True NegInfinity PosInfinity 0 = Inr (NegInfinity, 0)
   \<and> evaluatePosition fixedRandom flaggedMate 0 = Inr (0, 1)
   \<and> minimax fixedRandom 0 flaggedMate 0 True NegInfinity PosInfinity 0
       \<noteq> ebind (evaluatePosition fixedRandom flaggedMate 0) (\<lambda>(v, g'). Inr (Finite v, g'))"
  by code_simp







end
